theory Spec2Isabelle
  imports Complex_Main
begin

section \<open>JavaScript values and built-ins used by the generator\<close>

text \<open>
  A JavaScript string is a sequence of UTF-16 code units; a code unit is modelled by its
  number. \<open>js\<close> turns an ASCII literal into such a sequence, so that \<open>js ''00''\<close>
  is the string \<^verbatim>\<open>'00'\<close>. The Chinese literals of the source are written out as code
  units where they are needed.

  A JavaScript number that is an integer is an \<open>int\<close>; a number that may be \<^verbatim>\<open>NaN\<close>
  is an \<open>int option\<close> with \<open>None\<close> for \<^verbatim>\<open>NaN\<close>. A value that may be
  \<^verbatim>\<open>undefined\<close> or \<^verbatim>\<open>null\<close> is an option with \<open>None\<close> for it.
\<close>

type_synonym jsstring = "nat list"

type_synonym jsnumber = "int option"

definition js :: "string \<Rightarrow> jsstring" where
  "js s = map of_char s"

definition isDigit :: "nat \<Rightarrow> bool" where
  "isDigit c \<longleftrightarrow> 48 \<le> c \<and> c \<le> 57"

definition digitChar :: "nat \<Rightarrow> nat" where
  "digitChar d = 48 + d"

text \<open>\<^verbatim>\<open>String(n)\<close> for a natural number: its decimal digits, most significant first.\<close>

fun digits :: "nat \<Rightarrow> jsstring" where
  "digits n = (if n < 10 then [digitChar n] else digits (n div 10) @ [digitChar (n mod 10)])"

declare digits.simps [simp del]

definition String_int :: "int \<Rightarrow> jsstring" where
  "String_int i = (if i < 0 then 45 # digits (nat (- i)) else digits (nat i))"

text \<open>\<^verbatim>\<open>String(x)\<close> and the template conversion \<^verbatim>\<open>`${x}`\<close> of a number.\<close>

definition String_number :: "jsnumber \<Rightarrow> jsstring" where
  "String_number x = (case x of None \<Rightarrow> js ''NaN'' | Some i \<Rightarrow> String_int i)"

text \<open>The template conversion of a value that is a string or \<^verbatim>\<open>undefined\<close>.\<close>

definition String_opt :: "jsstring option \<Rightarrow> jsstring" where
  "String_opt x = (case x of None \<Rightarrow> js ''undefined'' | Some s \<Rightarrow> s)"

text \<open>\<^verbatim>\<open>s.padStart(n, '0')\<close>.\<close>

definition padStart0 :: "jsstring \<Rightarrow> nat \<Rightarrow> jsstring" where
  "padStart0 s n = replicate (n - length s) 48 @ s"

text \<open>
  \<^verbatim>\<open>s.substring(a, b)\<close> for \<open>a \<le> b\<close>, the only way the source calls it: both indices
  are clamped to the length of the string, as \<open>take\<close> and \<open>drop\<close> do.
\<close>

definition substring :: "jsstring \<Rightarrow> nat \<Rightarrow> nat \<Rightarrow> jsstring" where
  "substring s a b = take (b - a) (drop a s)"

text \<open>\<^verbatim>\<open>s.charAt(i)\<close>: the empty string beyond the end.\<close>

definition charAt :: "jsstring \<Rightarrow> nat \<Rightarrow> jsstring" where
  "charAt s i = substring s i (Suc i)"

definition endsWith :: "jsstring \<Rightarrow> jsstring \<Rightarrow> bool" where
  "endsWith s t \<longleftrightarrow> length t \<le> length s \<and> drop (length s - length t) s = t"

text \<open>An array read \<^verbatim>\<open>xs[k]\<close>: \<^verbatim>\<open>undefined\<close> out of range.\<close>

definition at_index :: "'a list \<Rightarrow> int \<Rightarrow> 'a option" where
  "at_index xs k = (if 0 \<le> k \<and> k < int (length xs) then Some (xs ! nat k) else None)"

text \<open>
  \<^verbatim>\<open>parseInt(s)\<close> with no radix: leading white space is skipped, one sign is read, a
  prefix \<^verbatim>\<open>0x\<close> switches to base sixteen, and the longest run of digits is the value; no
  digit at all gives \<^verbatim>\<open>NaN\<close>. (The value is exact here; in JavaScript it is rounded to a
  double beyond \<open>2 ^ 53\<close>, which the four characters the source passes never reach.)
\<close>

definition isWhiteSpace :: "nat \<Rightarrow> bool" where
  "isWhiteSpace c \<longleftrightarrow>
     c \<in> {9, 10, 11, 12, 13, 32, 160, 5760, 8232, 8233, 8239, 8287, 12288, 65279}
     \<or> (8192 \<le> c \<and> c \<le> 8202)"

definition digitValue :: "nat \<Rightarrow> nat \<Rightarrow> nat option" where
  "digitValue radix c =
     (let v = (if 48 \<le> c \<and> c \<le> 57 then Some (c - 48)
               else if 97 \<le> c \<and> c \<le> 122 then Some (c - 87)
               else if 65 \<le> c \<and> c \<le> 90 then Some (c - 55)
               else None)
      in case v of None \<Rightarrow> None | Some d \<Rightarrow> if d < radix then Some d else None)"

definition numeral_value :: "nat \<Rightarrow> jsstring \<Rightarrow> nat" where
  "numeral_value radix s = foldl (\<lambda>acc c. acc * radix + the (digitValue radix c)) 0 s"

definition parseInt :: "jsstring \<Rightarrow> jsnumber" where
  "parseInt s =
     (let s1 = dropWhile isWhiteSpace s;
          negative = (s1 \<noteq> [] \<and> hd s1 = 45);
          s2 = (if s1 \<noteq> [] \<and> (hd s1 = 45 \<or> hd s1 = 43) then tl s1 else s1);
          hex = (take 2 s2 = js ''0x'' \<or> take 2 s2 = js ''0X'');
          radix = (if hex then 16 else 10);
          s3 = (if hex then drop 2 s2 else s2);
          ds = takeWhile (\<lambda>c. digitValue radix c \<noteq> None) s3
      in if ds = [] then None
         else Some ((if negative then - 1 else 1) * int (numeral_value radix ds)))"

text \<open>
  A value of \<^verbatim>\<open>Math.random()\<close> is a double \<open>d\<close> with \<open>0 \<le> d\<close> and \<open>d < 1\<close>. Every such
  double is a natural number of at most 53 bits divided by a power of two of exponent at
  most 1074; it is kept as this pair, \<open>mantissa d / 2 ^ scale d\<close>.
\<close>

record jsdouble =
  mantissa :: nat
  scale :: nat

definition unit_double :: "jsdouble \<Rightarrow> bool" where
  "unit_double d \<longleftrightarrow> mantissa d < 2 ^ 53 \<and> scale d \<le> 1074 \<and> mantissa d < 2 ^ scale d"

text \<open>The number of binary digits of a natural number.\<close>

fun bit_length :: "nat \<Rightarrow> nat" where
  "bit_length n = (if n = 0 then 0 else Suc (bit_length (n div 2)))"

declare bit_length.simps [simp del]

text \<open>
  The rounding of double arithmetic on a natural number \<open>M\<close>: the nearest natural number
  with at most 53 significant bits, the one with an even last significant bit when \<open>M\<close>
  is halfway between two of them.
\<close>

definition round_to_53 :: "nat \<Rightarrow> nat" where
  "round_to_53 M =
     (if M < 2 ^ 53 then M
      else (let s = bit_length M - 53;
                q = M div 2 ^ s;
                r = M mod 2 ^ s;
                half = 2 ^ (s - 1);
                q = (if r > half \<or> (r = half \<and> odd q) then q + 1 else q)
            in q * 2 ^ s))"

text \<open>
  \<^verbatim>\<open>Math.floor(Math.random() * n)\<close>, with the value \<open>d\<close> that \<^verbatim>\<open>Math.random()\<close>
  returned, for an integer \<open>n\<close> from 0 to \<open>2 ^ 53\<close> (an array length or a constant in the
  source). The product of the doubles \<open>d\<close> and \<open>n\<close> is the exact product
  \<open>mantissa d * n / 2 ^ scale d\<close> rounded to 53 significant bits; it is at least
  \<open>2 ^ - 1074\<close> when it is not zero, so it is a normal or subnormal double with no
  further loss, and rounding it is rounding the numerator. The floor of the result is
  the quotient of the rounded numerator by \<open>2 ^ scale d\<close>.
\<close>

definition random_floor :: "jsdouble \<Rightarrow> int \<Rightarrow> int" where
  "random_floor d n = int (round_to_53 (mantissa d * nat n) div 2 ^ scale d)"

text \<open>
  \<^verbatim>\<open>Math.round(Math.random())\<close>: the nearest integer, and 1 for exactly one half. This
  function does not round its argument before it compares it with one half.
\<close>

definition random_round :: "jsdouble \<Rightarrow> int" where
  "random_round d = (if 2 * mantissa d < 2 ^ scale d then 0 else 1)"

section \<open>The reference data and the generator instance\<close>

text \<open>
  The package \<^verbatim>\<open>province-city-china/data\<close> exports four arrays. They are not part of the
  repository, so they are a parameter of the model. A city entry has the fields of a
  province entry and its own, and so on down.
\<close>

record province_rec =
  code :: jsstring
  name :: jsstring
  province :: jsstring

record city_rec = province_rec +
  city :: jsstring

record area_rec = city_rec +
  area :: jsstring

record town_rec = area_rec +
  town :: jsstring

record dataset =
  province_data :: "province_rec list"
  city_data :: "city_rec list"
  area_data :: "area_rec list"
  town_data :: "town_rec list"

text \<open>
  The fields of a \<^verbatim>\<open>ChineseIdGenerator\<close> that the region index and the number codec
  read or write. \<open>areaCodeByName\<close> is a \<^verbatim>\<open>Map\<close> that is later iterated, so it keeps
  its insertion order; the other maps are only read by key. The plugin table and the
  name and address options are left out: no function below reads them.
\<close>

record fuzzy =
  prefix_index :: "jsstring \<rightharpoonup> jsstring list"
  include_index :: "jsstring \<rightharpoonup> jsstring list"

record generator =
  initialized :: bool
  provinceMap :: "jsstring \<rightharpoonup> province_rec"
  cityMap :: "jsstring \<rightharpoonup> (jsstring \<rightharpoonup> city_rec)"
  areaMap :: "jsstring \<rightharpoonup> (jsstring \<rightharpoonup> (jsstring \<rightharpoonup> area_rec))"
  townMap :: "jsstring \<rightharpoonup> town_rec list"
  areaCodeByName :: "(jsstring \<times> jsstring) list"
  nameByAreaCode :: "jsstring \<rightharpoonup> jsstring"
  randomAreaCodes :: "jsstring list option"
  fuzzyAreaNameMap :: "fuzzy option"

text \<open>
  Every \<^verbatim>\<open>throw new Error(...)\<close> of the source, by its message, the
  \<^verbatim>\<open>RangeError\<close> of an exhausted call stack, and the \<^verbatim>\<open>TypeError\<close> of reading a
  property of \<^verbatim>\<open>undefined\<close>.
\<close>

datatype error =
    AreaCodeError    \<comment> \<open>the area code must be 6 digits\<close>
  | BirthdayError    \<comment> \<open>the birth date must be 8 digits, YYYYMMDD\<close>
  | GenderError      \<comment> \<open>the gender must be 0 or 1\<close>
  | AreaNameError    \<comment> \<open>the area name must not be empty\<close>
  | AgeError         \<comment> \<open>the age must be within 0 to 120\<close>
  | StackOverflow
  | TypeError

definition ID_WEIGHTS :: "int list" where
  "ID_WEIGHTS = [7, 9, 10, 5, 8, 4, 2, 1, 6, 3, 7, 9, 10, 5, 8, 4, 2]"

definition ID_CHECK_CODES :: "jsstring list" where
  "ID_CHECK_CODES = [js ''1'', js ''0'', js ''X'', js ''9'', js ''8'', js ''7'', js ''6'',
                     js ''5'', js ''4'', js ''3'', js ''2'']"

definition DIRECT_CITIES :: "jsstring list" where
  "DIRECT_CITIES = [js ''11'', js ''12'', js ''31'', js ''50'']"

text \<open>The name of the placeholder district, \<^verbatim>\<open>U+5E02 U+8F96 U+533A\<close>.\<close>

definition shixiaqu :: jsstring where
  "shixiaqu = [0x5E02, 0x8F96, 0x533A]"

text \<open>The table \<^verbatim>\<open>commonCities\<close>, its keys spelled as code units.\<close>

definition commonCities :: "(jsstring \<times> jsstring) list" where
  "commonCities =
     [([0x5317, 0x4EAC], js ''110000''),
      ([0x4E0A, 0x6D77], js ''310000''),
      ([0x5929, 0x6D25], js ''120000''),
      ([0x91CD, 0x5E86], js ''500000''),
      ([0x5E7F, 0x5DDE], js ''440100''),
      ([0x6DF1, 0x5733], js ''440300''),
      ([0x6B66, 0x6C49], js ''420100''),
      ([0x5357, 0x4EAC], js ''320100''),
      ([0x676D, 0x5DDE], js ''330100''),
      ([0x897F, 0x5B89], js ''610100''),
      ([0x6210, 0x90FD], js ''510100'')]"

section \<open>Building the region index\<close>

text \<open>
  \<^verbatim>\<open>_addAreaCodeMapping(code, name)\<close>: the name is entered in \<open>areaCodeByName\<close> only
  if it has no entry yet; the code is set in \<open>nameByAreaCode\<close> in every case.
\<close>

definition addAreaCodeMapping :: "generator \<Rightarrow> jsstring \<Rightarrow> jsstring \<Rightarrow> generator" where
  "addAreaCodeMapping st c n =
     (let st1 = (if map_of (areaCodeByName st) n = None
                 then st\<lparr>areaCodeByName := areaCodeByName st @ [(n, c)]\<rparr> else st)
      in st1\<lparr>nameByAreaCode := (nameByAreaCode st1)(c \<mapsto> n)\<rparr>)"

text \<open>
  \<^verbatim>\<open>_getProvinceName\<close>, as the build loops call it. While the instance is not yet
  initialised and the province is in \<open>provinceMap\<close>, its name is returned. While it is
  not initialised and the province is missing, the source calls \<^verbatim>\<open>_ensureInitialized\<close>,
  which enters \<^verbatim>\<open>_initData\<close> again, which reaches the same call in the same situation:
  the recursion has no end and the call stack overflows.
\<close>

definition getProvinceName :: "generator \<Rightarrow> jsstring \<Rightarrow> error + jsstring" where
  "getProvinceName st provinceCode =
     (if \<not> initialized st \<and> provinceMap st provinceCode \<noteq> None
      then Inr (case provinceMap st provinceCode of Some p \<Rightarrow> name p | None \<Rightarrow> [])
      else if \<not> initialized st then Inl StackOverflow
      else Inr (case provinceMap st provinceCode of Some p \<Rightarrow> name p | None \<Rightarrow> []))"

definition getCityInfo :: "generator \<Rightarrow> jsstring \<Rightarrow> jsstring \<Rightarrow> city_rec option" where
  "getCityInfo st provinceCode cityCode =
     (case cityMap st provinceCode of None \<Rightarrow> None | Some m \<Rightarrow> m cityCode)"

definition buildProvinceMaps :: "dataset \<Rightarrow> generator \<Rightarrow> generator" where
  "buildProvinceMaps ds st =
     fold (\<lambda>p s. addAreaCodeMapping (s\<lparr>provinceMap := (provinceMap s)(province p \<mapsto> p)\<rparr>)
                    (code p) (name p))
          (province_data ds) st"

fun buildCityMaps_loop :: "city_rec list \<Rightarrow> generator \<Rightarrow> error + generator" where
  "buildCityMaps_loop [] st = Inr st"
| "buildCityMaps_loop (c # cs) st =
     (let inner = (case cityMap st (province c) of None \<Rightarrow> Map.empty | Some m \<Rightarrow> m);
          st1 = st\<lparr>cityMap := (cityMap st)(province c \<mapsto> inner(city c \<mapsto> c))\<rparr>
      in case getProvinceName st1 (province c) of
           Inl e \<Rightarrow> Inl e
         | Inr provinceName \<Rightarrow>
             let fullName = provinceName @ name c
             in buildCityMaps_loop cs
                  (addAreaCodeMapping (addAreaCodeMapping st1 (code c) fullName) (code c) (name c)))"

definition buildCityMaps :: "dataset \<Rightarrow> generator \<Rightarrow> error + generator" where
  "buildCityMaps ds st = buildCityMaps_loop (city_data ds) st"

fun buildAreaMaps_loop :: "area_rec list \<Rightarrow> generator \<Rightarrow> error + generator" where
  "buildAreaMaps_loop [] st = Inr st"
| "buildAreaMaps_loop (a # as) st =
     (let byCity = (case areaMap st (province a) of None \<Rightarrow> Map.empty | Some m \<Rightarrow> m);
          byArea = (case byCity (city a) of None \<Rightarrow> Map.empty | Some m \<Rightarrow> m);
          st1 = st\<lparr>areaMap :=
                  (areaMap st)(province a \<mapsto> byCity(city a \<mapsto> byArea(area a \<mapsto> a)))\<rparr>
      in case getProvinceName st1 (province a) of
           Inl e \<Rightarrow> Inl e
         | Inr provinceName \<Rightarrow>
             let cityInfo = getCityInfo st1 (province a) (city a);
                 cityName = (case cityInfo of Some c \<Rightarrow> name c | None \<Rightarrow> []);
                 fullName = provinceName @ cityName @ name a
             in buildAreaMaps_loop as
                  (addAreaCodeMapping (addAreaCodeMapping st1 (code a) fullName) (code a) (name a)))"

definition buildAreaMaps :: "dataset \<Rightarrow> generator \<Rightarrow> error + generator" where
  "buildAreaMaps ds st = buildAreaMaps_loop (area_data ds) st"

definition buildTownMaps :: "dataset \<Rightarrow> generator \<Rightarrow> generator" where
  "buildTownMaps ds st =
     fold (\<lambda>t s. s\<lparr>townMap :=
                     (townMap s)(code t \<mapsto> (case townMap s (code t) of None \<Rightarrow> [] | Some ts \<Rightarrow> ts) @ [t])\<rparr>)
          (town_data ds) st"

definition initData :: "dataset \<Rightarrow> generator \<Rightarrow> error + generator" where
  "initData ds st =
     (if initialized st then Inr st
      else case buildCityMaps ds (buildProvinceMaps ds st) of
             Inl e \<Rightarrow> Inl e
           | Inr st2 \<Rightarrow>
               (case buildAreaMaps ds st2 of
                  Inl e \<Rightarrow> Inl e
                | Inr st3 \<Rightarrow> Inr ((buildTownMaps ds st3)\<lparr>initialized := True\<rparr>)))"

definition ensureInitialized :: "dataset \<Rightarrow> generator \<Rightarrow> error + generator" where
  "ensureInitialized ds st = (if \<not> initialized st then initData ds st else Inr st)"

text \<open>The fields as the constructor sets them, before any data is loaded.\<close>

definition new_generator :: generator where
  "new_generator =
     \<lparr>initialized = False, provinceMap = Map.empty, cityMap = Map.empty, areaMap = Map.empty,
      townMap = Map.empty, areaCodeByName = [], nameByAreaCode = Map.empty,
      randomAreaCodes = None, fuzzyAreaNameMap = None\<rparr>"

text \<open>\<^verbatim>\<open>_getAreaNameByCode\<close>: an empty name is falsy and gives \<^verbatim>\<open>null\<close>.\<close>

definition getAreaNameByCode :: "dataset \<Rightarrow> generator \<Rightarrow> jsstring \<Rightarrow> error + (jsstring option \<times> generator)" where
  "getAreaNameByCode ds st c =
     (case ensureInitialized ds st of
        Inl e \<Rightarrow> Inl e
      | Inr st1 \<Rightarrow>
          Inr (case nameByAreaCode st1 c of
                 None \<Rightarrow> None
               | Some n \<Rightarrow> if n = [] then None else Some n, st1))"

section \<open>The identity number codec\<close>

text \<open>\<^verbatim>\<open>_pad(num, length)\<close> is \<^verbatim>\<open>String(num).padStart(length, '0')\<close>.\<close>

definition pad :: "jsnumber \<Rightarrow> nat \<Rightarrow> jsstring" where
  "pad num len = padStart0 (String_number num) len"

record options =
  areaCode :: "jsstring option"
  birthday :: "jsstring option"
  gender :: "int option"

text \<open>A string or \<^verbatim>\<open>undefined\<close> is truthy when it is a string that is not empty.\<close>

definition truthy :: "jsstring option \<Rightarrow> bool" where
  "truthy x = (case x of None \<Rightarrow> False | Some s \<Rightarrow> s \<noteq> [])"

text \<open>The regular expressions \<^verbatim>\<open>/^\d{6}$/\<close>, \<^verbatim>\<open>/^\d{8}$/\<close> and \<^verbatim>\<open>/^\d{4}00$/\<close>.\<close>

definition regex_d6 :: "jsstring \<Rightarrow> bool" where
  "regex_d6 s \<longleftrightarrow> length s = 6 \<and> list_all isDigit s"

definition regex_d8 :: "jsstring \<Rightarrow> bool" where
  "regex_d8 s \<longleftrightarrow> length s = 8 \<and> list_all isDigit s"

definition regex_d4_00 :: "jsstring \<Rightarrow> bool" where
  "regex_d4_00 s \<longleftrightarrow> length s = 6 \<and> list_all isDigit (take 4 s) \<and> drop 4 s = js ''00''"

definition validateIdCardOptions :: "options \<Rightarrow> error + unit" where
  "validateIdCardOptions opts =
     (if truthy (areaCode opts) \<and> \<not> regex_d6 (String_opt (areaCode opts)) then Inl AreaCodeError
      else if truthy (birthday opts) \<and> \<not> regex_d8 (String_opt (birthday opts)) then Inl BirthdayError
      else if gender opts \<noteq> None \<and> gender opts \<notin> Some ` set [0, 1] then Inl GenderError
      else Inr ())"

text \<open>
  \<^verbatim>\<open>_generateSequenceCode(gender)\<close>; \<open>r\<close> is the value of its \<^verbatim>\<open>Math.random()\<close>.
  \<open>num\<close> is at least 1, so \<^verbatim>\<open>num % 2\<close> is \<open>num mod 2\<close>.
\<close>

definition generateSequenceCode :: "int \<Rightarrow> jsdouble \<Rightarrow> jsstring" where
  "generateSequenceCode g r =
     (let num = random_floor r 999 + 1;
          isOdd = (num mod 2 = 1);
          num = (if (g = 1 \<and> \<not> isOdd) \<or> (g = 0 \<and> isOdd)
                 then (let num = num + (if g = 1 then 1 else - 1);
                           num = (if num > 999 then 999 else num);
                           num = (if num < 1 then 2 else num)
                       in num)
                 else num)
      in pad (Some num) 3)"

text \<open>
  \<^verbatim>\<open>_isLeapYear(year)\<close>. A JavaScript remainder is zero exactly when \<open>mod\<close> is, also
  for a negative year.
\<close>

definition isLeapYear :: "int \<Rightarrow> bool" where
  "isLeapYear y \<longleftrightarrow> (y mod 4 = 0 \<and> y mod 100 \<noteq> 0) \<or> y mod 400 = 0"

text \<open>\<^verbatim>\<open>_getRandomBirthday()\<close>, with its three random values in the order of the calls.\<close>

definition getRandomBirthday :: "jsdouble \<Rightarrow> jsdouble \<Rightarrow> jsdouble \<Rightarrow> jsstring" where
  "getRandomBirthday ry rm rd =
     (let minYear = 1950;
          maxYear = 2005;
          yr = minYear + random_floor ry (maxYear - minYear + 1);
          mon = pad (Some (random_floor rm 12 + 1)) 2;
          maxDay = (if mon \<in> set [js ''04'', js ''06'', js ''09'', js ''11''] then 30
                    else if mon = js ''02'' then (if isLeapYear yr then 29 else 28)
                    else 31);
          dy = pad (Some (random_floor rd maxDay + 1)) 2
      in String_number (Some yr) @ mon @ dy)"

text \<open>
  \<^verbatim>\<open>_calculateCheckCode(idCardBase)\<close>. The sum is \<^verbatim>\<open>NaN\<close> as soon as one of the 17
  characters is not a digit or is missing, and then the table read is \<^verbatim>\<open>undefined\<close>.
  The sum is never negative, so \<^verbatim>\<open>sum % 11\<close> is \<open>sum mod 11\<close>.
\<close>

definition calculateCheckCode :: "jsstring \<Rightarrow> jsstring option" where
  "calculateCheckCode idCardBase =
     (let sum = fold (\<lambda>i acc. case (acc, parseInt (charAt idCardBase i)) of
                               (Some a, Some d) \<Rightarrow> Some (a + d * ID_WEIGHTS ! i)
                             | _ \<Rightarrow> None)
                     [0..<17] (Some 0)
      in case sum of None \<Rightarrow> None | Some s \<Rightarrow> at_index ID_CHECK_CODES (s mod 11))"

text \<open>
  \<^verbatim>\<open>_getRandomAreaCode()\<close>: the list of eligible codes is computed on the first call and
  kept in the cache.
\<close>

definition eligibleAreaCodes :: "dataset \<Rightarrow> jsstring list" where
  "eligibleAreaCodes ds = map code (filter (\<lambda>a. \<not> endsWith (code a) (js ''00'')) (area_data ds))"

definition getRandomAreaCode :: "dataset \<Rightarrow> generator \<Rightarrow> jsdouble \<Rightarrow> error + (jsstring option \<times> generator)" where
  "getRandomAreaCode ds st r =
     (case ensureInitialized ds st of
        Inl e \<Rightarrow> Inl e
      | Inr st1 \<Rightarrow>
          let codes = (case randomAreaCodes st1 of None \<Rightarrow> eligibleAreaCodes ds | Some cs \<Rightarrow> cs);
              st2 = st1\<lparr>randomAreaCodes := Some codes\<rparr>
          in Inr (at_index codes (random_floor r (int (length codes))), st2))"

text \<open>
  The values returned by \<^verbatim>\<open>Math.random()\<close>, one field for each call site that the
  functions below can reach.
\<close>

record draws =
  r_area :: jsdouble
  r_year :: jsdouble
  r_month :: jsdouble
  r_day :: jsdouble
  r_gender :: jsdouble
  r_seq :: jsdouble
  r_person_gender :: jsdouble
  r_district :: jsdouble
  r_age_month :: jsdouble
  r_age_day :: jsdouble

text \<open>Every value is one that \<^verbatim>\<open>Math.random()\<close> can return.\<close>

definition valid_draws :: "draws \<Rightarrow> bool" where
  "valid_draws rnd \<longleftrightarrow>
     unit_double (r_area rnd) \<and> unit_double (r_year rnd) \<and> unit_double (r_month rnd)
     \<and> unit_double (r_day rnd) \<and> unit_double (r_gender rnd) \<and> unit_double (r_seq rnd)
     \<and> unit_double (r_person_gender rnd) \<and> unit_double (r_district rnd)
     \<and> unit_double (r_age_month rnd) \<and> unit_double (r_age_day rnd)"

definition generateIdCard :: "dataset \<Rightarrow> generator \<Rightarrow> options \<Rightarrow> draws \<Rightarrow> error + (jsstring \<times> generator)" where
  "generateIdCard ds st opts rnd =
     (case ensureInitialized ds st of
        Inl e \<Rightarrow> Inl e
      | Inr st1 \<Rightarrow>
          (case validateIdCardOptions opts of
             Inl e \<Rightarrow> Inl e
           | Inr _ \<Rightarrow>
               (case (if truthy (areaCode opts) then Inr (areaCode opts, st1)
                      else getRandomAreaCode ds st1 (r_area rnd)) of
                  Inl e \<Rightarrow> Inl e
                | Inr (ac, st2) \<Rightarrow>
                    let bd = (if truthy (birthday opts) then String_opt (birthday opts)
                              else getRandomBirthday (r_year rnd) (r_month rnd) (r_day rnd));
                        g = (case gender opts of Some v \<Rightarrow> v | None \<Rightarrow> random_round (r_gender rnd));
                        sequenceCode = generateSequenceCode g (r_seq rnd);
                        idCardBase = String_opt ac @ bd @ sequenceCode;
                        checkCode = calculateCheckCode idCardBase
                    in Inr (idCardBase @ String_opt checkCode, st2))))"

text \<open>
  \<^verbatim>\<open>_extractInfoFromIdCard(idCard)\<close>; \<open>today\<close> is the value of \<^verbatim>\<open>new Date()\<close>, read
  through \<^verbatim>\<open>getFullYear()\<close>, \<^verbatim>\<open>getMonth()\<close> (which counts from 0) and
  \<^verbatim>\<open>getDate()\<close>. A comparison with \<^verbatim>\<open>NaN\<close> is false.
\<close>

record jsdate =
  getFullYear :: int
  getMonth :: int
  getDate :: int

record idinfo =
  birthYear :: jsnumber
  birthMonth :: jsnumber
  birthDay :: jsnumber
  age :: jsnumber
  formattedBirthDate :: jsstring

definition js_less :: "jsnumber \<Rightarrow> jsnumber \<Rightarrow> bool" where
  "js_less x y = (case (x, y) of (Some a, Some b) \<Rightarrow> a < b | _ \<Rightarrow> False)"

definition js_equal :: "jsnumber \<Rightarrow> jsnumber \<Rightarrow> bool" where
  "js_equal x y = (case (x, y) of (Some a, Some b) \<Rightarrow> a = b | _ \<Rightarrow> False)"

definition extractInfoFromIdCard :: "jsdate \<Rightarrow> jsstring \<Rightarrow> idinfo" where
  "extractInfoFromIdCard today idCard =
     (let by = parseInt (substring idCard 6 10);
          bm = parseInt (substring idCard 10 12);
          bd = parseInt (substring idCard 12 14);
          a = (case by of None \<Rightarrow> None | Some y \<Rightarrow> Some (getFullYear today - y));
          a = (if js_less (Some (getMonth today + 1)) bm
                  \<or> (js_equal (Some (getMonth today + 1)) bm \<and> js_less (Some (getDate today)) bd)
               then map_option (\<lambda>v. v - 1) a else a)
      in \<lparr>birthYear = by, birthMonth = bm, birthDay = bd, age = a,
          formattedBirthDate = String_number by @ js ''-'' @ pad bm 2 @ js ''-'' @ pad bd 2\<rparr>)"

section \<open>Region resolution\<close>

text \<open>
  \<^verbatim>\<open>_resolveDistrictCode(areaCode)\<close>; \<open>r\<close> is the value of its \<^verbatim>\<open>Math.random()\<close>. Reading
  \<^verbatim>\<open>.code\<close> of an array element that is not there would be a \<^verbatim>\<open>TypeError\<close>.
\<close>

definition resolveDistrictCode :: "dataset \<Rightarrow> jsstring \<Rightarrow> jsdouble \<Rightarrow> error + jsstring" where
  "resolveDistrictCode ds ac r =
     (if regex_d4_00 ac then
        (let provinceCode = substring ac 0 2;
             cityCode = substring ac 2 4;
             isDirectCity = (provinceCode \<in> set DIRECT_CITIES);
             districts =
               (if isDirectCity
                then filter (\<lambda>a. province a = provinceCode \<and> name a \<noteq> shixiaqu) (area_data ds)
                else filter (\<lambda>a. province a = provinceCode \<and> city a = cityCode \<and> name a \<noteq> shixiaqu)
                       (area_data ds))
         in if length districts > 0
            then (case at_index districts (random_floor r (int (length districts))) of
                    None \<Rightarrow> Inl TypeError
                  | Some randomDistrict \<Rightarrow> Inr (code randomDistrict))
            else Inr ac)
      else Inr ac)"

text \<open>
  \<^verbatim>\<open>_buildFuzzyAreaNameCache()\<close>. Both indexes are objects used as dictionaries from a
  string to an array of codes; an array gets a code only if it does not include it yet.
  The keys are the first one, two or three characters of a name, and single characters;
  every key that an object inherits from \<^verbatim>\<open>Object.prototype\<close> is longer, so the tests
  \<^verbatim>\<open>!prefix[key]\<close> and \<^verbatim>\<open>!include[char]\<close> see own keys only.
\<close>

definition add_code :: "(jsstring \<rightharpoonup> jsstring list) \<Rightarrow> jsstring \<Rightarrow> jsstring \<Rightarrow> (jsstring \<rightharpoonup> jsstring list)" where
  "add_code m k c =
     (let cur = (case m k of None \<Rightarrow> [] | Some cs \<Rightarrow> cs)
      in m(k \<mapsto> (if c \<in> set cur then cur else cur @ [c])))"

definition fuzzy_entry :: "jsstring \<times> jsstring \<Rightarrow> fuzzy \<Rightarrow> fuzzy" where
  "fuzzy_entry e fz =
     (let n = fst e; c = snd e;
          fz1 = (if length n > 1
                 then fold (\<lambda>i f. f\<lparr>prefix_index := add_code (prefix_index f) (substring n 0 i) c\<rparr>)
                        [1..<Suc (min (length n) 3)] fz
                 else fz)
      in fold (\<lambda>i f. f\<lparr>include_index := add_code (include_index f) [n ! i] c\<rparr>)
           [0..<length n] fz1)"

definition buildFuzzyAreaNameCache :: "generator \<Rightarrow> generator" where
  "buildFuzzyAreaNameCache st =
     st\<lparr>fuzzyAreaNameMap :=
          Some (fold fuzzy_entry (areaCodeByName st)
                  \<lparr>prefix_index = Map.empty, include_index = Map.empty\<rparr>)\<rparr>"

text \<open>
  \<^verbatim>\<open>commonCities\<close> and the two fuzzy indexes are plain objects, read with
  \<^verbatim>\<open>object[areaName]\<close>. Such a read also finds the members that every object inherits
  from \<^verbatim>\<open>Object.prototype\<close>: eleven functions and, under \<^verbatim>\<open>__proto__\<close>, the prototype
  itself. All of them are truthy and none is a string.
\<close>

definition object_prototype_keys :: "jsstring list" where
  "object_prototype_keys =
     [js ''constructor'', js ''__defineGetter__'', js ''__defineSetter__'',
      js ''hasOwnProperty'', js ''__lookupGetter__'', js ''__lookupSetter__'',
      js ''isPrototypeOf'', js ''propertyIsEnumerable'', js ''toString'', js ''valueOf'',
      js ''__proto__'', js ''toLocaleString'']"

text \<open>
  The value of \<^verbatim>\<open>_getAreaCodeByName(areaName)\<close>: a code, the member of
  \<^verbatim>\<open>Object.prototype\<close> with the given key, or \<^verbatim>\<open>null\<close>.
\<close>

datatype area_lookup = Code jsstring | Inherited jsstring | Null

text \<open>
  \<^verbatim>\<open>_getAreaCodeByName(areaName)\<close>: the value, and the instance with the fuzzy cache
  that the call may have built. \<open>areaCodeByName\<close> is a \<^verbatim>\<open>Map\<close>, so the first tier sees
  the inserted names only. The second tier returns for a key of \<^verbatim>\<open>Object.prototype\<close>
  the inherited member, so such a key never reaches the fuzzy indexes.
\<close>

definition getAreaCodeByName :: "dataset \<Rightarrow> generator \<Rightarrow> jsstring \<Rightarrow> error + (area_lookup \<times> generator)" where
  "getAreaCodeByName ds st areaName =
     (case ensureInitialized ds st of
        Inl e \<Rightarrow> Inl e
      | Inr st1 \<Rightarrow>
          (case map_of (areaCodeByName st1) areaName of
             Some c \<Rightarrow> Inr (Code c, st1)
           | None \<Rightarrow>
               (case map_of commonCities areaName of
                  Some c \<Rightarrow> Inr (Code c, st1)
                | None \<Rightarrow>
                    if areaName \<in> set object_prototype_keys then Inr (Inherited areaName, st1)
                    else
                      let st2 = (case fuzzyAreaNameMap st1 of
                                   None \<Rightarrow> buildFuzzyAreaNameCache st1 | Some _ \<Rightarrow> st1);
                          fz = (case fuzzyAreaNameMap st2 of
                                  Some f \<Rightarrow> f
                                | None \<Rightarrow> \<lparr>prefix_index = Map.empty, include_index = Map.empty\<rparr>);
                          prefixMatches = prefix_index fz areaName;
                          includeMatches = include_index fz areaName
                      in (case prefixMatches of
                            Some (c # _) \<Rightarrow> Inr (Code c, st2)
                          | _ \<Rightarrow>
                              (case includeMatches of
                                 Some (c # _) \<Rightarrow> Inr (Code c, st2)
                               | _ \<Rightarrow> Inr (Null, st2))))))"

section \<open>Person records\<close>

text \<open>
  \<^verbatim>\<open>_getBirthdayFromAge(age)\<close>, with its two random values in the order of the calls.
\<close>

definition getBirthdayFromAge :: "jsdate \<Rightarrow> int \<Rightarrow> jsdouble \<Rightarrow> jsdouble \<Rightarrow> jsstring" where
  "getBirthdayFromAge today a rm rd =
     (let yr = getFullYear today - a;
          mon = pad (Some (random_floor rm 12 + 1)) 2;
          maxDay = (if mon \<in> set [js ''04'', js ''06'', js ''09'', js ''11''] then 30
                    else if mon = js ''02'' then (if isLeapYear yr then 29 else 28)
                    else 31);
          dy = pad (Some (random_floor rd maxDay + 1)) 2
      in String_number (Some yr) @ mon @ dy)"

text \<open>
  The fields of a generated person that come from the identity number and the region
  index. The name, the telephone number, the e-mail address and the street address are
  produced by \<^verbatim>\<open>mockjs\<close> and the helper modules, and are left out. No plugin is
  registered. The gender label is U+7537 for 1 and U+5973 otherwise; the name of an
  unknown area is U+672A U+77E5 U+5730 U+533A.
\<close>

record person =
  person_gender :: jsstring
  person_age :: jsnumber
  person_birthDate :: jsstring
  person_idCard :: jsstring
  person_areaName :: jsstring

definition generatePersonInfo :: "dataset \<Rightarrow> generator \<Rightarrow> jsdate \<Rightarrow> options \<Rightarrow> draws \<Rightarrow> error + (person \<times> generator)" where
  "generatePersonInfo ds st today opts rnd =
     (case ensureInitialized ds st of
        Inl e \<Rightarrow> Inl e
      | Inr st1 \<Rightarrow>
          let g = (case gender opts of Some v \<Rightarrow> v | None \<Rightarrow> random_round (r_person_gender rnd))
          in (case generateIdCard ds st1 (opts\<lparr>gender := Some g\<rparr>) rnd of
                Inl e \<Rightarrow> Inl e
              | Inr (idCard, st2) \<Rightarrow>
                  let info = extractInfoFromIdCard today idCard;
                      ac = substring idCard 0 6
                  in (case getAreaNameByCode ds st2 ac of
                        Inl e \<Rightarrow> Inl e
                      | Inr (areaName, st3) \<Rightarrow>
                          Inr (\<lparr>person_gender = (if g = 1 then [0x7537] else [0x5973]),
                                person_age = age info,
                                person_birthDate = formattedBirthDate info,
                                person_idCard = idCard,
                                person_areaName =
                                  (case areaName of Some n \<Rightarrow> n
                                   | None \<Rightarrow> [0x672A, 0x77E5, 0x5730, 0x533A])\<rparr>, st3))))"

text \<open>
  \<^verbatim>\<open>generatePersonInfoByAreaAndAge(areaName, age, options)\<close>. The age is a number or
  \<^verbatim>\<open>undefined\<close>. A code that is \<^verbatim>\<open>null\<close> or the empty string is replaced by
  110101. A member of \<^verbatim>\<open>Object.prototype\<close> is truthy and its string is not six digits:
  \<^verbatim>\<open>_resolveDistrictCode\<close> returns it as it is, and \<^verbatim>\<open>generateIdCard\<close>, the first
  step of \<^verbatim>\<open>generatePersonInfo\<close> that can fail, rejects it as an area code.
\<close>

definition generatePersonInfoByAreaAndAge ::
    "dataset \<Rightarrow> generator \<Rightarrow> jsdate \<Rightarrow> jsstring \<Rightarrow> int option \<Rightarrow> options \<Rightarrow> draws \<Rightarrow> error + (person \<times> generator)" where
  "generatePersonInfoByAreaAndAge ds st today areaName a opts rnd =
     (case ensureInitialized ds st of
        Inl e \<Rightarrow> Inl e
      | Inr st1 \<Rightarrow>
          if areaName = [] then Inl AreaNameError
          else if a = None \<or> js_less a (Some 0) \<or> js_less (Some 120) a then Inl AgeError
          else (case getAreaCodeByName ds st1 areaName of
                  Inl e \<Rightarrow> Inl e
                | Inr (Inherited _, st2) \<Rightarrow> Inl AreaCodeError
                | Inr (found, st2) \<Rightarrow>
                    (case resolveDistrictCode ds
                            (case found of Code c \<Rightarrow> (if c = [] then js ''110101'' else c)
                             | _ \<Rightarrow> js ''110101'')
                            (r_district rnd) of
                       Inl e \<Rightarrow> Inl e
                     | Inr ac \<Rightarrow>
                         let bd = getBirthdayFromAge today (case a of Some v \<Rightarrow> v | None \<Rightarrow> 0)
                                    (r_age_month rnd) (r_age_day rnd)
                         in generatePersonInfo ds st2 today
                              (opts\<lparr>areaCode := Some ac, birthday := Some bd\<rparr>) rnd)))"

section \<open>Reference notions used to state the properties\<close>

text \<open>
  The length of a month as the specification words it: months 4, 6, 9 and 11 have 30
  days, February has 29 in a leap year (divisible by 4 and not by 100, or divisible by
  400) and 28 otherwise, every other month has 31.
\<close>

definition gregorian_month_length :: "int \<Rightarrow> int \<Rightarrow> int" where
  "gregorian_month_length y m =
     (if m \<in> {4, 6, 9, 11} then 30
      else if m = 2 then (if (4 dvd y \<and> \<not> 100 dvd y) \<or> 400 dvd y then 29 else 28)
      else 31)"

text \<open>
  A value of \<^verbatim>\<open>Math.random()\<close> for which \<^verbatim>\<open>Math.floor(Math.random() * n)\<close> is \<open>k\<close>, for
  \<open>0 \<le> k\<close>, \<open>k < n\<close> and \<open>n \<le> 64\<close>: the least multiple of \<open>1 / 64\<close> that is not below
  \<open>k / n\<close>.
\<close>

definition draw_for :: "int \<Rightarrow> int \<Rightarrow> jsdouble" where
  "draw_for k n = \<lparr>mantissa = nat ((k * 64 + n - 1) div n), scale = 6\<rparr>"


text \<open>
  The insertions into the region index, in the order of the traversal of \<open>initData\<close>:
  every province under its name; then every city under its full name (the name of its
  province followed by its own) and under its bare name; then every district under its
  full name (province, city, own) and under its bare name. The province of a key is the
  last province entry with that key, and likewise for the city; a city that is missing
  contributes the empty name.
\<close>

definition provinceNameOf :: "dataset \<Rightarrow> jsstring \<Rightarrow> jsstring" where
  "provinceNameOf ds k =
     (case map_of (rev (map (\<lambda>p. (province p, name p)) (province_data ds))) k of
        None \<Rightarrow> [] | Some n \<Rightarrow> n)"

definition cityNameOf :: "dataset \<Rightarrow> jsstring \<Rightarrow> jsstring \<Rightarrow> jsstring" where
  "cityNameOf ds k j =
     (case map_of (rev (map (\<lambda>c. ((province c, city c), name c)) (city_data ds))) (k, j) of
        None \<Rightarrow> [] | Some n \<Rightarrow> n)"

definition index_insertions :: "dataset \<Rightarrow> (jsstring \<times> jsstring) list" where
  "index_insertions ds =
     map (\<lambda>p. (name p, code p)) (province_data ds)
     @ concat (map (\<lambda>c. [(provinceNameOf ds (province c) @ name c, code c), (name c, code c)])
                 (city_data ds))
     @ concat (map (\<lambda>a. [(provinceNameOf ds (province a)
                             @ cityNameOf ds (province a) (city a) @ name a, code a),
                          (name a, code a)])
                 (area_data ds))"

text \<open>
  The two index fields of an instance, and the effect on them of one insertion of a name
  with a code.
\<close>

definition index_of :: "generator \<Rightarrow> (jsstring \<times> jsstring) list \<times> (jsstring \<rightharpoonup> jsstring)" where
  "index_of st = (areaCodeByName st, nameByAreaCode st)"

definition index_add ::
    "jsstring \<times> jsstring \<Rightarrow> (jsstring \<times> jsstring) list \<times> (jsstring \<rightharpoonup> jsstring)
     \<Rightarrow> (jsstring \<times> jsstring) list \<times> (jsstring \<rightharpoonup> jsstring)" where
  "index_add e ix =
     (if map_of (fst ix) (fst e) = None then fst ix @ [e] else fst ix, (snd ix)(snd e \<mapsto> fst e))"

section \<open>A small instance\<close>

text \<open>
  Reference data with two provinces, one city and three districts, one of them the
  placeholder district; a generator as the constructor leaves it with \<^verbatim>\<open>lazyLoad\<close>;
  and random values that are all one half.
\<close>

definition example_data :: dataset where
  "example_data =
     \<lparr>province_data =
        [\<lparr>code = js ''110000'', name = [0x5317, 0x4EAC, 0x5E02], province = js ''11''\<rparr>,
         \<lparr>code = js ''420000'', name = [0x6E56, 0x5317, 0x7701], province = js ''42''\<rparr>],
      city_data =
        [\<lparr>code = js ''420100'', name = [0x6B66, 0x6C49, 0x5E02], province = js ''42'',
          city = js ''01''\<rparr>],
      area_data =
        [\<lparr>code = js ''110101'', name = [0x4E1C, 0x57CE, 0x533A], province = js ''11'',
          city = js ''01'', area = js ''01''\<rparr>,
         \<lparr>code = js ''420101'', name = [0x5E02, 0x8F96, 0x533A], province = js ''42'',
          city = js ''01'', area = js ''01''\<rparr>,
         \<lparr>code = js ''420102'', name = [0x6C5F, 0x5CB8, 0x533A], province = js ''42'',
          city = js ''01'', area = js ''02''\<rparr>],
      town_data = []\<rparr>"

definition one_half :: jsdouble where
  "one_half = \<lparr>mantissa = 1, scale = 1\<rparr>"

definition example_draws :: draws where
  "example_draws =
     \<lparr>r_area = one_half, r_year = one_half, r_month = one_half, r_day = one_half,
      r_gender = one_half, r_seq = one_half, r_person_gender = one_half,
      r_district = one_half, r_age_month = one_half, r_age_day = one_half\<rparr>"


text \<open>The 3rd of November 2026; \<^verbatim>\<open>getMonth()\<close> counts November as 10.\<close>

definition example_today :: jsdate where
  "example_today = \<lparr>getFullYear = 2026, getMonth = 10, getDate = 3\<rparr>"

text \<open>
  The entries of \<open>areaCodeByName\<close> after the index is built from \<open>example_data\<close>, in
  insertion order: each city and district under its full name and then its bare name.
\<close>

definition example_names :: "(jsstring \<times> jsstring) list" where
  "example_names =
     [([0x5317, 0x4EAC, 0x5E02], js ''110000''),
      ([0x6E56, 0x5317, 0x7701], js ''420000''),
      ([0x6E56, 0x5317, 0x7701, 0x6B66, 0x6C49, 0x5E02], js ''420100''),
      ([0x6B66, 0x6C49, 0x5E02], js ''420100''),
      ([0x5317, 0x4EAC, 0x5E02, 0x4E1C, 0x57CE, 0x533A], js ''110101''),
      ([0x4E1C, 0x57CE, 0x533A], js ''110101''),
      ([0x6E56, 0x5317, 0x7701, 0x6B66, 0x6C49, 0x5E02, 0x5E02, 0x8F96, 0x533A], js ''420101''),
      ([0x5E02, 0x8F96, 0x533A], js ''420101''),
      ([0x6E56, 0x5317, 0x7701, 0x6B66, 0x6C49, 0x5E02, 0x6C5F, 0x5CB8, 0x533A], js ''420102''),
      ([0x6C5F, 0x5CB8, 0x533A], js ''420102'')]"

section \<open>Auxiliary facts about the built-ins\<close>

lemma bit_length_upper: "n < 2 ^ bit_length n"
proof (induction n rule: bit_length.induct)
  case (1 n)
  show ?case
  proof (cases "n = 0")
    case True then show ?thesis by (simp add: bit_length.simps)
  next
    case False
    then have "n div 2 < 2 ^ bit_length (n div 2)" using 1 by simp
    then have "n < 2 * 2 ^ bit_length (n div 2)" by linarith
    then show ?thesis using False by (simp add: bit_length.simps [of n])
  qed
qed

lemma bit_length_lower: "0 < n \<Longrightarrow> 2 ^ (bit_length n - 1) \<le> n"
proof (induction n rule: bit_length.induct)
  case (1 n)
  show ?case
  proof (cases "n div 2 = 0")
    case True
    then have "bit_length n = 1" using 1(2) by (simp add: bit_length.simps [of n] bit_length.simps [of 0])
    then show ?thesis using 1(2) by simp
  next
    case False
    then have a: "2 ^ (bit_length (n div 2) - 1) \<le> n div 2" using 1 by simp
    have "0 < bit_length (n div 2)" using False by (simp add: bit_length.simps [of "n div 2"])
    then have "bit_length n - 1 = Suc (bit_length (n div 2) - 1)"
      using 1(2) by (simp add: bit_length.simps [of n])
    then have "(2::nat) ^ (bit_length n - 1) = 2 * 2 ^ (bit_length (n div 2) - 1)" by simp
    then show ?thesis using a by linarith
  qed
qed

lemma round_to_53_le:
  assumes "2 ^ 53 \<le> M"
  shows "round_to_53 M \<le> M + 2 ^ (bit_length M - 54)"
proof -
  define s where "s = bit_length M - 53"
  have "(2::nat) ^ 53 < 2 ^ bit_length M" using assms bit_length_upper [of M] by linarith
  then have "53 < bit_length M" by (simp only: power_strict_increasing_iff) 
  then have s: "bit_length M - 54 = s - 1" "0 < s" by (simp_all add: s_def)
  then have p: "(2::nat) ^ s = 2 * 2 ^ (s - 1)" by (cases s) simp_all
  have d: "M div 2 ^ s * 2 ^ s + M mod 2 ^ s = M" by (rule div_mult_mod_eq)
  have "(M div 2 ^ s + 1) * 2 ^ s = M div 2 ^ s * 2 ^ s + 2 ^ s" by (simp add: algebra_simps)
  then have u: "2 ^ (s - 1) \<le> M mod 2 ^ s \<Longrightarrow> (M div 2 ^ s + 1) * 2 ^ s \<le> M + 2 ^ (s - 1)"
    using d p by linarith
  have l: "M div 2 ^ s * 2 ^ s \<le> M + 2 ^ (s - 1)" using d by linarith
  have "round_to_53 M = (if M mod 2 ^ s > 2 ^ (s - 1) \<or> (M mod 2 ^ s = 2 ^ (s - 1) \<and> odd (M div 2 ^ s))
      then M div 2 ^ s + 1 else M div 2 ^ s) * 2 ^ s"
    using assms unfolding round_to_53_def Let_def s_def [symmetric] by simp
  then show ?thesis unfolding s(1) using u l by (auto simp del: One_nat_def)
qed

lemma round_product_less:
  assumes "m < 2 ^ 53" "m < 2 ^ k" "0 < n"
  shows "round_to_53 (m * n) < n * 2 ^ k"
proof (cases "m * n < 2 ^ 53")
  case True
  have "m * n < 2 ^ k * n" using assms by simp
  then show ?thesis using True by (simp add: round_to_53_def mult.commute)
next
  case False
  define M where "M = m * n"
  have M: "2 ^ 53 \<le> M" using False by (simp add: M_def)
  have "(2::nat) ^ 53 < 2 ^ bit_length M" using M bit_length_upper [of M] by linarith
  then have L: "53 < bit_length M" by (simp only: power_strict_increasing_iff) 
  have "0 < M" using M by (simp add: order_less_le_trans [of 0 "2 ^ 53"])
  then have lo: "2 ^ (bit_length M - 1) \<le> M" by (rule bit_length_lower)
  have n: "2 ^ (bit_length M - 54) < n"
  proof (rule ccontr)
    assume "\<not> 2 ^ (bit_length M - 54) < n"
    then have "n \<le> 2 ^ (bit_length M - 54)" by simp
    then have "m * n \<le> m * 2 ^ (bit_length M - 54)" by simp
    also have "\<dots> < 2 ^ 53 * 2 ^ (bit_length M - 54)" using assms(1) by simp
    also have "\<dots> = 2 ^ (53 + (bit_length M - 54))" by (simp only: power_add)
    also have "53 + (bit_length M - 54) = bit_length M - 1" using L by simp
    finally show False using lo by (simp add: M_def)
  qed
  have "Suc m \<le> 2 ^ k" using assms(2) by simp
  then have "Suc m * n \<le> 2 ^ k * n" by (rule mult_le_mono1)
  then have "M + n \<le> n * 2 ^ k" by (simp add: M_def mult.commute)
  then show ?thesis using round_to_53_le [OF M] n unfolding M_def by linarith
qed

lemma random_floor_bounds:
  assumes "unit_double r" "0 < n"
  shows "0 \<le> random_floor r n \<and> random_floor r n < n"
proof -
  have "round_to_53 (mantissa r * nat n) < nat n * 2 ^ scale r"
    using assms by (intro round_product_less) (simp_all add: unit_double_def)
  then have "round_to_53 (mantissa r * nat n) div 2 ^ scale r < nat n"
    by (simp add: less_mult_imp_div_less)
  then show ?thesis using assms(2) by (simp add: random_floor_def)
qed

lemma bit_length_numeral:
  "bit_length 0 = 0"
  "bit_length (Suc 0) = 1"
  "bit_length (numeral (Num.Bit0 k)) = Suc (bit_length (numeral k))"
  "bit_length (numeral (Num.Bit1 k)) = Suc (bit_length (numeral k))"
  by (simp_all add: bit_length.simps [of 0] bit_length.simps [of "Suc 0"]
      bit_length.simps [of "numeral (Num.Bit0 k)"] bit_length.simps [of "numeral (Num.Bit1 k)"])

text \<open>
  Three products that are not doubles. The exact product of the first value with 999
  lies below 133 by less than half of the distance between neighbouring doubles, and
  is rounded to 133; likewise for the second value and 10. The third value is
  \<open>1 - 2 ^ - 52\<close>, and its product with 30 is rounded to a double below 30.
\<close>

lemma random_floor_rounded_product:
  "random_floor \<lparr>mantissa = 599578328769045, scale = 52\<rparr> 999 = 133"
  "random_floor \<lparr>mantissa = 3752999689475413, scale = 52\<rparr> 12 = 10"
  "random_floor \<lparr>mantissa = 4503599627370495, scale = 52\<rparr> 30 = 29"
  "random_floor \<lparr>mantissa = 0, scale = 0\<rparr> 56 = 0"
  by (simp_all add: random_floor_def round_to_53_def bit_length_numeral Let_def)

lemma isDigit_digitChar: "d < 10 \<Longrightarrow> isDigit (digitChar d)"
  by (simp add: isDigit_def digitChar_def)

lemma digits_all_digit: "list_all isDigit (digits n)"
proof (induction n rule: digits.induct)
  case (1 n)
  show ?case
  proof (cases "n < 10")
    case True
    then show ?thesis by (simp add: digits.simps [of n] isDigit_digitChar)
  next
    case False
    with 1 show ?thesis by (simp add: digits.simps [of n] isDigit_digitChar)
  qed
qed

lemma digitValue_10: "isDigit c \<Longrightarrow> digitValue 10 c = Some (c - 48)"
  by (auto simp: digitValue_def isDigit_def)

lemma numeral_value_snoc:
  "numeral_value radix (s @ [c]) = numeral_value radix s * radix + the (digitValue radix c)"
  by (simp add: numeral_value_def)

lemma numeral_value_digits: "numeral_value 10 (digits n) = n"
proof (induction n rule: digits.induct)
  case (1 n)
  show ?case
  proof (cases "n < 10")
    case True
    then show ?thesis
      by (simp add: digits.simps [of n] numeral_value_def digitValue_def digitChar_def)
  next
    case False
    then have "numeral_value 10 (digits (n div 10)) = n div 10" using 1 by simp
    moreover have "the (digitValue 10 (digitChar (n mod 10))) = n mod 10"
      by (simp add: digitValue_10 isDigit_digitChar) (simp add: digitChar_def)
    ultimately show ?thesis using False
      by (simp add: digits.simps [of n] numeral_value_snoc)
  qed
qed

lemma length_digits: "0 < k \<Longrightarrow> n < 10 ^ k \<Longrightarrow> length (digits n) \<le> k"
proof (induction n arbitrary: k rule: digits.induct)
  case (1 n)
  show ?case
  proof (cases "n < 10")
    case True
    then show ?thesis using 1(2) by (simp add: digits.simps [of n])
  next
    case False
    then obtain j where k: "k = Suc j" and j: "0 < j"
      using 1(2,3) by (cases k; cases "k - 1") auto
    have "n div 10 < 10 ^ j" using 1(3) k by (simp add: less_mult_imp_div_less mult.commute)
    then have "length (digits (n div 10)) \<le> j" using 1(1) [OF False j] by simp
    then show ?thesis using False k by (simp add: digits.simps [of n])
  qed
qed

lemma numeral_value_zero_Cons: "numeral_value 10 (48 # s) = numeral_value 10 s"
  by (simp add: numeral_value_def digitValue_def)

lemma numeral_value_zeros: "numeral_value 10 (replicate m 48 @ s) = numeral_value 10 s"
  by (induction m) (simp_all add: numeral_value_zero_Cons)

lemma all_digit_zeros: "list_all isDigit (replicate m 48)"
  by (induction m) (simp_all add: isDigit_def)

lemma pad_nat:
  assumes "0 \<le> n" "n < 10 ^ k" "0 < k"
  shows "length (pad (Some n) k) = k" "list_all isDigit (pad (Some n) k)"
    "numeral_value 10 (pad (Some n) k) = nat n"
proof -
  have s: "String_number (Some n) = digits (nat n)"
    using assms by (simp add: String_number_def String_int_def)
  have "nat n < 10 ^ k" using assms by (simp add: nat_less_iff)
  then have l: "length (digits (nat n)) \<le> k" using length_digits assms(3) by blast
  show "length (pad (Some n) k) = k" using l by (simp add: pad_def padStart0_def s)
  show "list_all isDigit (pad (Some n) k)"
    by (simp add: pad_def padStart0_def s digits_all_digit all_digit_zeros)
  show "numeral_value 10 (pad (Some n) k) = nat n"
    by (simp add: pad_def padStart0_def s numeral_value_zeros numeral_value_digits)
qed

lemma parseInt_digits:
  assumes "s \<noteq> []" "list_all isDigit s"
  shows "parseInt s = Some (int (numeral_value 10 s))"
proof -
  obtain c cs where s: "s = c # cs" using assms(1) by (cases s) auto
  have c: "isDigit c" using assms(2) s by simp
  have ws: "dropWhile isWhiteSpace s = s"
    using c s by (auto simp: isDigit_def isWhiteSpace_def)
  have sign: "hd s \<noteq> 45" "hd s \<noteq> 43" using c s by (auto simp: isDigit_def)
  have hex: "take 2 s \<noteq> js ''0x''" "take 2 s \<noteq> js ''0X''"
    using assms(2) s by (cases cs; auto simp: js_def isDigit_def)+
  have tw: "takeWhile (\<lambda>c. digitValue 10 c \<noteq> None) s = s"
    using assms(2) by (auto simp: list_all_iff digitValue_10)
  show ?thesis
    unfolding parseInt_def Let_def ws using sign hex assms(1) by (simp add: tw del: not_None_eq)
qed

lemma random_floor_hit:
  assumes "0 \<le> k" "k < n" "n \<le> 64"
  shows "random_floor (draw_for k n) n = k" "unit_double (draw_for k n)"
proof -
  define m where "m = (k * 64 + n - 1) div n"
  have n: "0 < n" using assms by simp
  have m0: "0 \<le> m" using assms n by (simp add: m_def pos_imp_zdiv_nonneg_iff)
  have d: "m * n + (k * 64 + n - 1) mod n = k * 64 + n - 1"
    unfolding m_def by (rule div_mult_mod_eq)
  have b: "0 \<le> (k * 64 + n - 1) mod n" "(k * 64 + n - 1) mod n < n" using n by simp_all
  have "(k + 1) * 64 = k * 64 + 64" by (simp add: algebra_simps)
  then have up: "m * n < (k + 1) * 64" using d b assms by linarith
  have lo: "k * 64 \<le> m * n" using d b by linarith
  have "(k + 1) * 64 \<le> n * 64" using assms by simp
  then have "m * n < 64 * n" using up by linarith
  then have m64: "m < 64" using n by simp
  have e: "int (nat m * nat n) = m * n" using m0 n by (simp add: nat_mult_distrib)
  have "nat m \<le> 63" "nat n \<le> 64" using m64 assms by simp_all
  then have "nat m * nat n \<le> 63 * 64" by (rule mult_le_mono)
  then have "nat m * nat n < 2 ^ 53" by simp
  then have r: "round_to_53 (nat m * nat n) = nat m * nat n" by (simp add: round_to_53_def)
  have "int (64 * nat k) \<le> int (nat m * nat n)" "int (nat m * nat n) < int (64 * Suc (nat k))"
    unfolding e using lo up assms(1) by simp_all
  then have "64 * nat k \<le> nat m * nat n" "nat m * nat n < 64 * Suc (nat k)"
    by (simp_all only: of_nat_le_iff of_nat_less_iff)
  then have "nat m * nat n div 64 = nat k" by (rule div_nat_eqI)
  then have "int (nat m * nat n div 64) = k" using assms(1) by simp
  then show "random_floor (draw_for k n) n = k"
    by (simp add: random_floor_def draw_for_def m_def [symmetric] r)
  show "unit_double (draw_for k n)"
    using m64 m0 by (simp add: unit_double_def draw_for_def m_def [symmetric] nat_less_iff)
qed

lemma pad2_inj:
  assumes "0 \<le> m" "m < 100" "0 \<le> k" "k < 100"
  shows "pad (Some m) 2 = pad (Some k) 2 \<longleftrightarrow> m = k"
proof
  assume "pad (Some m) 2 = pad (Some k) 2"
  then have "numeral_value 10 (pad (Some m) 2) = numeral_value 10 (pad (Some k) 2)" by simp
  then show "m = k" using pad_nat(3) [of m 2] pad_nat(3) [of k 2] assms by simp
qed simp

lemma pad2_values:
  "pad (Some 2) 2 = js ''02''" "pad (Some 4) 2 = js ''04''" "pad (Some 6) 2 = js ''06''"
  "pad (Some 9) 2 = js ''09''" "pad (Some 11) 2 = js ''11''"
  by (simp_all add: pad_def padStart0_def String_number_def String_int_def digits.simps
      digitChar_def js_def)

lemma maxDay_gregorian:
  assumes "1 \<le> m" "m \<le> 12"
  shows "(if pad (Some m) 2 \<in> set [js ''04'', js ''06'', js ''09'', js ''11''] then 30
          else if pad (Some m) 2 = js ''02'' then (if isLeapYear y then 29 else 28)
          else 31) = gregorian_month_length y m"
proof -
  have e: "\<And>k. 0 \<le> k \<Longrightarrow> k < 100 \<Longrightarrow> pad (Some m) 2 = pad (Some k) 2 \<longleftrightarrow> m = k"
    using pad2_inj [of m] assms by simp
  have l: "isLeapYear y \<longleftrightarrow> (4 dvd y \<and> \<not> 100 dvd y) \<or> 400 dvd y"
    by (simp add: isLeapYear_def dvd_eq_mod_eq_0)
  show ?thesis
    unfolding gregorian_month_length_def l
    by (simp add: pad2_values [symmetric] e)
qed


lemma length_digits_lower: "10 ^ k \<le> n \<Longrightarrow> k < length (digits n)"
proof (induction n arbitrary: k rule: digits.induct)
  case (1 n)
  show ?case
  proof (cases "n < 10")
    case True
    then have "k = 0" using 1(2) self_le_power [of "10::nat" k] by (cases "k = 0") auto
    then show ?thesis using True by (simp add: digits.simps [of n])
  next
    case False
    show ?thesis
    proof (cases k)
      case 0
      then show ?thesis using False by (simp add: digits.simps [of n])
    next
      case (Suc j)
      then have "10 ^ j \<le> n div 10" using 1(2) by (simp add: less_eq_div_iff_mult_less_eq mult.commute)
      then have "j < length (digits (n div 10))" using 1(1) [OF False] by simp
      then show ?thesis using False Suc by (simp add: digits.simps [of n])
    qed
  qed
qed

lemma String_number_year:
  assumes "1000 \<le> y" "y \<le> 9999"
  shows "length (String_number (Some y)) = 4" "list_all isDigit (String_number (Some y))"
proof -
  have s: "String_number (Some y) = digits (nat y)"
    using assms by (simp add: String_number_def String_int_def)
  have "nat y < 10 ^ 4" "10 ^ 3 \<le> nat y" using assms by simp_all
  then have "length (digits (nat y)) \<le> 4" "3 < length (digits (nat y))"
    using length_digits [of 4 "nat y"] length_digits_lower [of 3 "nat y"] by simp_all
  then show "length (String_number (Some y)) = 4" using s by simp
  show "list_all isDigit (String_number (Some y))" using s digits_all_digit by simp
qed

lemma gregorian_month_length_pos: "28 \<le> gregorian_month_length y m"
  by (simp add: gregorian_month_length_def)

lemma getRandomBirthday_eq:
  assumes "unit_double rm"
  shows "getRandomBirthday ry rm rd =
     String_number (Some (1950 + random_floor ry 56)) @ pad (Some (random_floor rm 12 + 1)) 2
     @ pad (Some (random_floor rd
          (gregorian_month_length (1950 + random_floor ry 56) (random_floor rm 12 + 1)) + 1)) 2"
proof -
  have m: "1 \<le> random_floor rm 12 + 1" "random_floor rm 12 + 1 \<le> 12"
    using random_floor_bounds [OF assms, of 12] by simp_all
  show ?thesis
    unfolding getRandomBirthday_def Let_def
    by (simp only: maxDay_gregorian [OF m]) simp
qed

lemma getRandomBirthday_sound:
  assumes "unit_double ry" "unit_double rm" "unit_double rd"
  shows "\<exists>y m d. getRandomBirthday ry rm rd
                 = String_number (Some y) @ pad (Some m) 2 @ pad (Some d) 2
         \<and> regex_d8 (getRandomBirthday ry rm rd)
         \<and> 1950 \<le> y \<and> y \<le> 2005 \<and> 1 \<le> m \<and> m \<le> 12
         \<and> 1 \<le> d \<and> d \<le> gregorian_month_length y m
         \<and> y = 1950 + random_floor ry 56 \<and> m = random_floor rm 12 + 1
         \<and> d = random_floor rd (gregorian_month_length y m) + 1"
proof -
  define y where "y = 1950 + random_floor ry 56"
  define m where "m = random_floor rm 12 + 1"
  define d where "d = random_floor rd (gregorian_month_length y m) + 1"
  have y: "1950 \<le> y" "y \<le> 2005"
    using random_floor_bounds [of ry 56] assms by (simp_all add: y_def)
  have m: "1 \<le> m" "m \<le> 12"
    using random_floor_bounds [of rm 12] assms by (simp_all add: m_def)
  have g: "0 < gregorian_month_length y m" "gregorian_month_length y m \<le> 31"
    using gregorian_month_length_pos [of y m] by (simp_all add: gregorian_month_length_def)
  have d: "1 \<le> d" "d \<le> gregorian_month_length y m"
    using random_floor_bounds [of rd "gregorian_month_length y m"] assms g(1)
    by (simp_all add: d_def)
  have e: "getRandomBirthday ry rm rd = String_number (Some y) @ pad (Some m) 2 @ pad (Some d) 2"
    using getRandomBirthday_eq [of rm ry rd] assms by (simp add: y_def m_def d_def)
  have "length (String_number (Some y)) = 4" "list_all isDigit (String_number (Some y))"
    using String_number_year [of y] y by simp_all
  moreover have "length (pad (Some m) 2) = 2" "list_all isDigit (pad (Some m) 2)"
    using pad_nat [of m 2] m by simp_all
  moreover have "length (pad (Some d) 2) = 2" "list_all isDigit (pad (Some d) 2)"
    using pad_nat [of d 2] d g by simp_all
  ultimately have "regex_d8 (getRandomBirthday ry rm rd)"
    by (simp add: e regex_d8_def)
  then show ?thesis
    using e y m d y_def m_def d_def by blast
qed

lemma charAt_digit:
  assumes "i < length s" "isDigit (s ! i)"
  shows "parseInt (charAt s i) = Some (int (s ! i - 48))"
proof -
  have c: "charAt s i = [s ! i]"
    using assms(1) by (simp add: charAt_def substring_def take_Suc_conv_app_nth Cons_nth_drop_Suc [symmetric])
  have "numeral_value 10 [s ! i] = s ! i - 48"
    using assms(2) by (simp add: numeral_value_def digitValue_10)
  then show ?thesis using parseInt_digits [of "[s ! i]"] assms(2) c by simp
qed

lemma checksum_fold:
  assumes "n \<le> length s" "list_all isDigit s" "n \<le> 17"
  shows "fold (\<lambda>i acc. case (acc, parseInt (charAt s i)) of
                               (Some a, Some d) \<Rightarrow> Some (a + d * ID_WEIGHTS ! i)
                             | _ \<Rightarrow> None) [0..<n] (Some 0)
         = Some (\<Sum>i<n. int (s ! i - 48) * ID_WEIGHTS ! i)"
  using assms
proof (induction n)
  case 0
  then show ?case by simp
next
  case (Suc n)
  then have "isDigit (s ! n)" "n < length s" by (simp_all add: list_all_length)
  then have "parseInt (charAt s n) = Some (int (s ! n - 48))" using charAt_digit by simp
  then show ?case using Suc by simp
qed

lemma weighted_sum_nonneg: "0 \<le> (\<Sum>i<17. int (s ! i - 48) * ID_WEIGHTS ! i)"
proof (rule sum_nonneg)
  fix i assume "i \<in> {..<17::nat}"
  then have "i < 17" by simp
  then have "0 \<le> ID_WEIGHTS ! i"
    unfolding ID_WEIGHTS_def by (simp add: nth_Cons' )
  then show "0 \<le> int (s ! i - 48) * ID_WEIGHTS ! i" by simp
qed

lemma calculateCheckCode_digits:
  assumes "length s = 17" "list_all isDigit s"
  shows "calculateCheckCode s =
           Some (ID_CHECK_CODES ! nat ((\<Sum>i<17. int (s ! i - 48) * ID_WEIGHTS ! i) mod 11))"
proof -
  let ?x = "(\<Sum>i<17. int (s ! i - 48) * ID_WEIGHTS ! i)"
  have "0 \<le> ?x mod 11" "?x mod 11 < 11" by simp_all
  then have "at_index ID_CHECK_CODES (?x mod 11) = Some (ID_CHECK_CODES ! nat (?x mod 11))"
    by (simp add: at_index_def ID_CHECK_CODES_def)
  then show ?thesis
    unfolding calculateCheckCode_def Let_def
    using checksum_fold [of 17 s] assms by simp
qed

lemma check_code_length: "k < 11 \<Longrightarrow> length (ID_CHECK_CODES ! k) = 1"
proof -
  assume "k < 11"
  then have "k = 0 \<or> k = 1 \<or> k = 2 \<or> k = 3 \<or> k = 4 \<or> k = 5 \<or> k = 6 \<or> k = 7
      \<or> k = 8 \<or> k = 9 \<or> k = 10" by arith
  then show ?thesis by (auto simp: ID_CHECK_CODES_def js_def)
qed


lemma ensureInitialized_initialized:
  "ensureInitialized ds st = Inr st1 \<Longrightarrow> initialized st1"
  by (auto simp: ensureInitialized_def initData_def split: if_splits sum.splits)

lemma ensureInitialized_idem:
  "initialized st \<Longrightarrow> ensureInitialized ds st = Inr st"
  by (simp add: ensureInitialized_def)

lemma addAreaCodeMapping_cache [simp]:
  "randomAreaCodes (addAreaCodeMapping st c n) = randomAreaCodes st"
  "initialized (addAreaCodeMapping st c n) = initialized st"
  by (simp_all add: addAreaCodeMapping_def Let_def)

lemma buildProvinceMaps_cache:
  "randomAreaCodes (buildProvinceMaps ds st) = randomAreaCodes st"
proof -
  have "randomAreaCodes (fold (\<lambda>p s. addAreaCodeMapping (s\<lparr>provinceMap := (provinceMap s)(province p \<mapsto> p)\<rparr>)
                    (code p) (name p)) ps st) = randomAreaCodes st" for ps
    by (induction ps arbitrary: st) simp_all
  then show ?thesis by (simp add: buildProvinceMaps_def)
qed

lemma buildCityMaps_loop_cache:
  "buildCityMaps_loop cs st = Inr st' \<Longrightarrow> randomAreaCodes st' = randomAreaCodes st"
proof (induction cs arbitrary: st)
  case Nil
  then show ?case by simp
next
  case (Cons c cs)
  then show ?case
    by (auto simp: Let_def split: sum.splits)
qed

lemma buildAreaMaps_loop_cache:
  "buildAreaMaps_loop as st = Inr st' \<Longrightarrow> randomAreaCodes st' = randomAreaCodes st"
proof (induction as arbitrary: st)
  case Nil
  then show ?case by simp
next
  case (Cons a as)
  then show ?case
    by (auto simp: Let_def split: sum.splits)
qed

lemma buildTownMaps_cache:
  "randomAreaCodes (buildTownMaps ds st) = randomAreaCodes st"
proof -
  have "randomAreaCodes (fold (\<lambda>t s. s\<lparr>townMap :=
                     (townMap s)(code t \<mapsto> (case townMap s (code t) of None \<Rightarrow> [] | Some ts \<Rightarrow> ts) @ [t])\<rparr>) ts st) = randomAreaCodes st" for ts
    by (induction ts arbitrary: st) simp_all
  then show ?thesis by (simp add: buildTownMaps_def)
qed

lemma ensureInitialized_cache:
  assumes "ensureInitialized ds st = Inr st1"
  shows "randomAreaCodes st1 = randomAreaCodes st"
proof (cases "initialized st")
  case True
  then show ?thesis using assms by (simp add: ensureInitialized_def)
next
  case False
  then obtain st2 st3 where
    a: "buildCityMaps_loop (city_data ds) (buildProvinceMaps ds st) = Inr st2"
    and b: "buildAreaMaps_loop (area_data ds) st2 = Inr st3"
    and c: "st1 = (buildTownMaps ds st3)\<lparr>initialized := True\<rparr>"
    using assms
    by (auto simp: ensureInitialized_def initData_def buildCityMaps_def buildAreaMaps_def
        split: sum.splits)
  show ?thesis
    using buildCityMaps_loop_cache [OF a] buildAreaMaps_loop_cache [OF b] c
    by (simp add: buildTownMaps_cache buildProvinceMaps_cache)
qed


lemma getRandomAreaCode_ok:
  assumes "initialized st1"
    and "randomAreaCodes st1 = None \<or> randomAreaCodes st1 = Some (eligibleAreaCodes ds)"
    and "eligibleAreaCodes ds \<noteq> []" and "unit_double r"
  shows "\<exists>c. c \<in> set (eligibleAreaCodes ds)
           \<and> c = eligibleAreaCodes ds ! nat (random_floor r (int (length (eligibleAreaCodes ds))))
           \<and> getRandomAreaCode ds st1 r
               = Inr (Some c, st1\<lparr>randomAreaCodes := Some (eligibleAreaCodes ds)\<rparr>)"
proof -
  let ?codes = "eligibleAreaCodes ds"
  have codes: "(case randomAreaCodes st1 of None \<Rightarrow> ?codes | Some cs \<Rightarrow> cs) = ?codes"
    using assms(2) by auto
  have "0 < int (length ?codes)" using assms(3) by simp
  then have k: "0 \<le> random_floor r (int (length ?codes))"
    "random_floor r (int (length ?codes)) < int (length ?codes)"
    using random_floor_bounds [OF assms(4)] by simp_all
  then have "at_index ?codes (random_floor r (int (length ?codes)))
      = Some (?codes ! nat (random_floor r (int (length ?codes))))"
    by (simp add: at_index_def)
  moreover have "?codes ! nat (random_floor r (int (length ?codes))) \<in> set ?codes"
    using k by (simp add: nat_less_iff)
  ultimately show ?thesis
    using assms(2)
    by (auto simp: getRandomAreaCode_def Let_def ensureInitialized_idem [OF assms(1)])
qed

lemma generateSequenceCode_digits:
  assumes "unit_double r"
  shows "length (generateSequenceCode g r) = 3" "list_all isDigit (generateSequenceCode g r)"
proof -
  define n0 where "n0 = random_floor r 999 + 1"
  have n0: "1 \<le> n0" "n0 \<le> 999"
    using random_floor_bounds [OF assms(1), of 999] by (simp_all add: n0_def)
  define num where
    "num = (if (g = 1 \<and> \<not> n0 mod 2 = 1) \<or> (g = 0 \<and> n0 mod 2 = 1)
            then (let m = n0 + (if g = 1 then 1 else - 1);
                      m = (if m > 999 then 999 else m);
                      m = (if m < 1 then 2 else m)
                  in m)
            else n0)"
  have gen: "generateSequenceCode g r = pad (Some num) 3"
    by (simp add: generateSequenceCode_def num_def n0_def Let_def)
  have range: "1 \<le> num" "num \<le> 999"
    using n0 by (auto simp: num_def Let_def)
  show "length (generateSequenceCode g r) = 3" "list_all isDigit (generateSequenceCode g r)"
    using pad_nat [of num 3] range by (simp_all add: gen)
qed

lemma validate_ok:
  assumes "validateIdCardOptions opts = Inr ()"
  shows "truthy (areaCode opts) \<Longrightarrow> \<exists>a. areaCode opts = Some a \<and> regex_d6 a"
    and "truthy (birthday opts) \<Longrightarrow> \<exists>b. birthday opts = Some b \<and> regex_d8 b"
    and "gender opts = None \<or> gender opts = Some 0 \<or> gender opts = Some 1"
  using assms
  by (auto simp: validateIdCardOptions_def truthy_def String_opt_def
      split: if_splits option.splits)

lemma generateIdCard_unfold:
  assumes init: "ensureInitialized ds st = Inr st1"
    and valid: "validateIdCardOptions opts = Inr ()"
    and data: "\<not> truthy (areaCode opts) \<Longrightarrow>
        (randomAreaCodes st = None \<or> randomAreaCodes st = Some (eligibleAreaCodes ds))
        \<and> eligibleAreaCodes ds \<noteq> [] \<and> unit_double (r_area rnd)"
  shows "\<exists>ac st'. generateIdCard ds st opts rnd =
      Inr (ac @ (if truthy (birthday opts) then String_opt (birthday opts)
                 else getRandomBirthday (r_year rnd) (r_month rnd) (r_day rnd))
              @ generateSequenceCode
                  (case gender opts of Some v \<Rightarrow> v | None \<Rightarrow> random_round (r_gender rnd))
                  (r_seq rnd)
              @ String_opt (calculateCheckCode
                  (ac @ (if truthy (birthday opts) then String_opt (birthday opts)
                         else getRandomBirthday (r_year rnd) (r_month rnd) (r_day rnd))
                      @ generateSequenceCode
                          (case gender opts of Some v \<Rightarrow> v | None \<Rightarrow> random_round (r_gender rnd))
                          (r_seq rnd))), st')
      \<and> (truthy (areaCode opts) \<longrightarrow> areaCode opts = Some ac)
      \<and> (\<not> truthy (areaCode opts) \<longrightarrow> ac \<in> set (eligibleAreaCodes ds)
            \<and> ac = eligibleAreaCodes ds
                   ! nat (random_floor (r_area rnd) (int (length (eligibleAreaCodes ds)))))"
proof (cases "truthy (areaCode opts)")
  case True
  then obtain a where a: "areaCode opts = Some a" using validate_ok(1) [OF valid] by blast
  show ?thesis
    unfolding generateIdCard_def Let_def init valid using True a
    by (intro exI [of _ a] exI [of _ st1]) (simp add: String_opt_def)
next
  case False
  have i: "initialized st1" using init by (rule ensureInitialized_initialized)
  have c: "randomAreaCodes st1 = None \<or> randomAreaCodes st1 = Some (eligibleAreaCodes ds)"
    using data [OF False] ensureInitialized_cache [OF init] by simp
  obtain c where c: "c \<in> set (eligibleAreaCodes ds)"
    "c = eligibleAreaCodes ds
           ! nat (random_floor (r_area rnd) (int (length (eligibleAreaCodes ds))))"
    "getRandomAreaCode ds st1 (r_area rnd)
       = Inr (Some c, st1\<lparr>randomAreaCodes := Some (eligibleAreaCodes ds)\<rparr>)"
    using getRandomAreaCode_ok [OF i c] data [OF False] by blast
  show ?thesis
    unfolding generateIdCard_def Let_def init valid using False c(1,3) c(2) [symmetric]
    by (intro exI [of _ c] exI [of _ "st1\<lparr>randomAreaCodes := Some (eligibleAreaCodes ds)\<rparr>"])
      (simp add: String_opt_def)
qed

lemma generateIdCard_digits:
  assumes init: "ensureInitialized ds st = Inr st1"
    and valid: "validateIdCardOptions opts = Inr ()"
    and data: "\<not> truthy (areaCode opts) \<Longrightarrow>
        (randomAreaCodes st = None \<or> randomAreaCodes st = Some (eligibleAreaCodes ds))
        \<and> eligibleAreaCodes ds \<noteq> [] \<and> (\<forall>c\<in>set (eligibleAreaCodes ds). regex_d6 c)"
    and draws: "valid_draws rnd"
  shows "\<exists>ac bd sq st'. generateIdCard ds st opts rnd =
      Inr (ac @ bd @ sq @ ID_CHECK_CODES !
             nat ((\<Sum>i<17. int ((ac @ bd @ sq) ! i - 48) * ID_WEIGHTS ! i) mod 11), st')
      \<and> regex_d6 ac \<and> regex_d8 bd \<and> length sq = 3 \<and> list_all isDigit sq
      \<and> (truthy (areaCode opts) \<longrightarrow> areaCode opts = Some ac)
      \<and> (\<not> truthy (areaCode opts) \<longrightarrow> ac \<in> set (eligibleAreaCodes ds))
      \<and> (truthy (birthday opts) \<longrightarrow> birthday opts = Some bd)
      \<and> sq = generateSequenceCode
                  (case gender opts of Some v \<Rightarrow> v | None \<Rightarrow> random_round (r_gender rnd))
                  (r_seq rnd)"
proof -
  define bd where "bd = (if truthy (birthday opts) then String_opt (birthday opts)
                 else getRandomBirthday (r_year rnd) (r_month rnd) (r_day rnd))"
  define sq where "sq = generateSequenceCode
                  (case gender opts of Some v \<Rightarrow> v | None \<Rightarrow> random_round (r_gender rnd))
                  (r_seq rnd)"
  have d: "\<not> truthy (areaCode opts) \<Longrightarrow>
        (randomAreaCodes st = None \<or> randomAreaCodes st = Some (eligibleAreaCodes ds))
        \<and> eligibleAreaCodes ds \<noteq> [] \<and> unit_double (r_area rnd)"
    using data draws by (simp add: valid_draws_def)
  obtain ac st' where g: "generateIdCard ds st opts rnd =
      Inr (ac @ bd @ sq @ String_opt (calculateCheckCode (ac @ bd @ sq)), st')"
    and ac: "truthy (areaCode opts) \<longrightarrow> areaCode opts = Some ac"
      "\<not> truthy (areaCode opts) \<longrightarrow> ac \<in> set (eligibleAreaCodes ds)"
    using generateIdCard_unfold [OF init valid d] unfolding bd_def sq_def by blast
  have ac6: "regex_d6 ac"
    using ac validate_ok(1) [OF valid] data by (cases "truthy (areaCode opts)") auto
  have bd8: "regex_d8 bd"
  proof (cases "truthy (birthday opts)")
    case True
    then show ?thesis using validate_ok(2) [OF valid] by (auto simp: bd_def String_opt_def)
  next
    case False
    then show ?thesis
      using getRandomBirthday_sound [of "r_year rnd" "r_month rnd" "r_day rnd"] draws
      by (auto simp: bd_def valid_draws_def)
  qed
  have sq3: "length sq = 3" "list_all isDigit sq"
    using generateSequenceCode_digits draws by (simp_all add: sq_def valid_draws_def)
  have "length (ac @ bd @ sq) = 17" "list_all isDigit (ac @ bd @ sq)"
    using ac6 bd8 sq3 by (simp_all add: regex_d6_def regex_d8_def)
  then have "calculateCheckCode (ac @ bd @ sq) = Some (ID_CHECK_CODES !
             nat ((\<Sum>i<17. int ((ac @ bd @ sq) ! i - 48) * ID_WEIGHTS ! i) mod 11))"
    by (rule calculateCheckCode_digits)
  then have "generateIdCard ds st opts rnd =
      Inr (ac @ bd @ sq @ ID_CHECK_CODES !
             nat ((\<Sum>i<17. int ((ac @ bd @ sq) ! i - 48) * ID_WEIGHTS ! i) mod 11), st')"
    using g by (simp add: String_opt_def)
  moreover have "truthy (birthday opts) \<longrightarrow> birthday opts = Some bd"
    by (auto simp: bd_def truthy_def String_opt_def split: option.splits)
  ultimately show ?thesis
    using ac ac6 bd8 sq3 sq_def by blast
qed

lemma example_eligible:
  "eligibleAreaCodes example_data = [js ''110101'', js ''420101'', js ''420102'']"
  by (simp add: eligibleAreaCodes_def example_data_def endsWith_def js_def)

lemma example_init: "\<exists>st1. ensureInitialized example_data new_generator = Inr st1"
  by (simp add: ensureInitialized_def initData_def new_generator_def example_data_def
      buildProvinceMaps_def buildCityMaps_def buildAreaMaps_def buildTownMaps_def
      getProvinceName_def getCityInfo_def addAreaCodeMapping_def Let_def js_def)

lemma example_valid_draws: "valid_draws example_draws"
  by (simp add: valid_draws_def example_draws_def one_half_def unit_double_def)

lemma substring_digits:
  assumes "b \<le> length s" "a < b" "\<forall>i. a \<le> i \<and> i < b \<longrightarrow> isDigit (s ! i)"
  shows "parseInt (substring s a b) = Some (int (numeral_value 10 (substring s a b)))"
proof (rule parseInt_digits)
  show "substring s a b \<noteq> []" using assms(1,2) by (simp add: substring_def)
  show "list_all isDigit (substring s a b)"
    using assms by (simp add: substring_def list_all_length)
qed

lemma extract_fields:
  "birthYear (extractInfoFromIdCard today s) = parseInt (substring s 6 10)"
  "birthMonth (extractInfoFromIdCard today s) = parseInt (substring s 10 12)"
  "birthDay (extractInfoFromIdCard today s) = parseInt (substring s 12 14)"
  by (simp_all add: extractInfoFromIdCard_def Let_def)

lemma extract_age:
  assumes "parseInt (substring s 6 10) = Some y" "parseInt (substring s 10 12) = Some m"
    "parseInt (substring s 12 14) = Some d"
  shows "age (extractInfoFromIdCard today s) =
     Some (getFullYear today - y
           - (if getMonth today + 1 < m \<or> (getMonth today + 1 = m \<and> getDate today < d)
              then 1 else 0))"
  using assms by (simp add: extractInfoFromIdCard_def Let_def js_less_def js_equal_def)

lemma numeral_value_4:
  "numeral_value 10 (map digitChar [a, b, c, d]) = 1000 * a + 100 * b + 10 * c + d"
  if "a < 10" "b < 10" "c < 10" "d < 10"
  using that by (simp add: numeral_value_def digitValue_10 isDigit_digitChar) (simp add: digitChar_def)

lemma numeral_value_2:
  "numeral_value 10 (map digitChar [a, b]) = 10 * a + b" if "a < 10" "b < 10"
  using that by (simp add: numeral_value_def digitValue_10 isDigit_digitChar) (simp add: digitChar_def)

lemma validate_falsy_area:
  assumes "\<not> truthy (areaCode opts)"
  shows "validateIdCardOptions opts = Inr () \<or> validateIdCardOptions opts = Inl BirthdayError
         \<or> validateIdCardOptions opts = Inl GenderError"
  using assms by (simp add: validateIdCardOptions_def)

lemma generateIdCard_invalid:
  assumes "ensureInitialized ds st = Inr st1" "validateIdCardOptions opts = Inl e"
  shows "generateIdCard ds st opts rnd = Inl e"
  using assms by (simp add: generateIdCard_def)

lemma eligible_in_data:
  assumes "c \<in> set (eligibleAreaCodes ds)"
  shows "\<exists>a\<in>set (area_data ds). code a = c \<and> \<not> endsWith (code a) (js ''00'')"
  using assms by (auto simp: eligibleAreaCodes_def)

lemma random_floor_one_half:
  "random_floor one_half 56 = 28" "random_floor one_half 12 = 6" "random_floor one_half 31 = 15"
  "random_floor one_half 999 = 499" "random_floor one_half 3 = 1" "random_floor one_half 1 = 0"
  by (simp_all add: random_floor_def round_to_53_def one_half_def)

lemmas js_eval = js_def pad_def padStart0_def String_number_def String_int_def digits.simps
  digitChar_def random_floor_one_half

lemma upt_17: "[0..<17] = [0, 1, 2, 3, 4, 5, 6, 7, 8, 9, 10, 11, 12, 13, 14, 15, 16]"
  by (simp add: upt_conv_Cons)

lemma parseInt_char: "isDigit c \<Longrightarrow> parseInt [c] = Some (int (c - 48))"
  using parseInt_digits [of "[c]"] by (simp add: numeral_value_def digitValue_10)

lemma example_birthday: "getRandomBirthday one_half one_half one_half = js ''19780716''"
  by (simp add: getRandomBirthday_def isLeapYear_def js_eval)

lemma example_sequence: "generateSequenceCode 1 one_half = js ''501''"
  by (simp add: generateSequenceCode_def js_eval)

lemma example_check: "calculateCheckCode (js ''42010119780716501'') = Some (js ''X'')"
  by (simp add: calculateCheckCode_def upt_17 charAt_def substring_def js_def parseInt_char
      isDigit_def ID_WEIGHTS_def ID_CHECK_CODES_def at_index_def)

lemma generateIdCard_error:
  assumes "ensureInitialized ds st = Inr st1" "generateIdCard ds st opts rnd = Inl e"
  shows "validateIdCardOptions opts = Inl e"
proof (cases "validateIdCardOptions opts")
  case (Inl e')
  then show ?thesis using assms generateIdCard_invalid [OF assms(1) Inl] by simp
next
  case (Inr u)
  have i: "initialized st1" using assms(1) by (rule ensureInitialized_initialized)
  have "\<exists>x. getRandomAreaCode ds st1 (r_area rnd) = Inr x"
    by (simp add: getRandomAreaCode_def Let_def ensureInitialized_idem [OF i])
  then show ?thesis
    using assms Inr by (auto simp: generateIdCard_def Let_def split: if_splits prod.splits)
qed





lemmas init_eval = ensureInitialized_def initData_def new_generator_def example_data_def
      buildProvinceMaps_def buildCityMaps_def buildAreaMaps_def buildTownMaps_def
      getProvinceName_def getCityInfo_def addAreaCodeMapping_def Let_def js_def

lemma example_index:
  "\<exists>st1. ensureInitialized example_data new_generator = Inr st1
      \<and> areaCodeByName st1 = example_names \<and> fuzzyAreaNameMap st1 = None
      \<and> nameByAreaCode st1 (js ''420100'') = Some [0x6B66, 0x6C49, 0x5E02]"
  by (simp add: init_eval example_names_def)

lemmas fuzzy_eval = example_names_def fuzzy_entry_def add_code_def Let_def substring_def js_def
  upt_conv_Cons

lemma example_fuzzy:
  "include_index (fold fuzzy_entry example_names
       \<lparr>prefix_index = Map.empty, include_index = Map.empty\<rparr>) [0x6C49]
     = Some [js ''420100'', js ''420101'', js ''420102'']"
  "include_index (fold fuzzy_entry example_names
       \<lparr>prefix_index = Map.empty, include_index = Map.empty\<rparr>) [0x6C49, 0x53E3] = None"
  "prefix_index (fold fuzzy_entry example_names
       \<lparr>prefix_index = Map.empty, include_index = Map.empty\<rparr>) [0x6C49, 0x53E3] = None"
  by (simp_all add: fuzzy_eval)

lemma index_of_add: "index_of (addAreaCodeMapping st c n) = index_add (n, c) (index_of st)"
  by (simp add: index_of_def index_add_def addAreaCodeMapping_def Let_def)

lemma index_of_other [simp]:
  "index_of (st\<lparr>provinceMap := pm\<rparr>) = index_of st"
  "index_of (st\<lparr>cityMap := cm\<rparr>) = index_of st"
  "index_of (st\<lparr>areaMap := am\<rparr>) = index_of st"
  "index_of (st\<lparr>townMap := tm\<rparr>) = index_of st"
  "index_of (st\<lparr>initialized := b\<rparr>) = index_of st"
  by (simp_all add: index_of_def)

lemma addAreaCodeMapping_other [simp]:
  "provinceMap (addAreaCodeMapping st c n) = provinceMap st"
  "cityMap (addAreaCodeMapping st c n) = cityMap st"
  by (simp_all add: addAreaCodeMapping_def Let_def)

lemma fold_index_add_names:
  "map_of (fst (fold index_add ins ix)) = map_of (fst ix @ ins)"
proof (induction ins arbitrary: ix)
  case Nil
  then show ?case by simp
next
  case (Cons e es)
  have step: "map_of (fst (fold index_add (e # es) ix)) = map_of (fst (index_add e ix) @ es)"
    using Cons [of "index_add e ix"] by simp
  show ?case
  proof (cases "map_of (fst ix) (fst e) = None")
    case True
    then have "fst (index_add e ix) = fst ix @ [e]" by (simp add: index_add_def)
    then show ?thesis using step by simp
  next
    case False
    then have f: "fst (index_add e ix) = fst ix" by (simp add: index_add_def)
    have "map_of (fst ix @ e # es) = map_of (fst ix @ es)"
      using False by (cases e) (auto simp: map_add_def fun_eq_iff split: option.splits)
    then show ?thesis using step by (simp only: f)
  qed
qed

lemma fold_index_add_codes:
  "snd (fold index_add ins ix) = snd ix ++ map_of (rev (map (\<lambda>(n, c). (c, n)) ins))"
proof (induction ins arbitrary: ix)
  case Nil
  then show ?case by simp
next
  case (Cons e es)
  have step: "snd (fold index_add (e # es) ix)
      = snd (index_add e ix) ++ map_of (rev (map (\<lambda>(n, c). (c, n)) es))"
    using Cons [of "index_add e ix"] by simp
  have s: "snd (index_add e ix) = (snd ix)(snd e \<mapsto> fst e)" by (simp add: index_add_def)
  show ?case
    unfolding step s
    by (cases e) (auto simp: map_add_def fun_eq_iff split: option.splits)
qed

lemma fold_index_add_distinct:
  "distinct (map fst (fst ix)) \<Longrightarrow> distinct (map fst (fst (fold index_add ins ix)))"
proof (induction ins arbitrary: ix)
  case Nil
  then show ?case by simp
next
  case (Cons e es)
  have "distinct (map fst (fst (index_add e ix)))"
    using Cons(2) by (auto simp: index_add_def map_of_eq_None_iff)
  then have "distinct (map fst (fst (fold index_add es (index_add e ix))))" by (rule Cons(1))
  then show ?case by simp
qed

lemma fold_index_add_append:
  "fold index_add (xs @ ys) ix = fold index_add ys (fold index_add xs ix)"
  by simp

lemma map_of_first:
  "map_of xs n = Some c \<longleftrightarrow>
     (\<exists>k<length xs. xs ! k = (n, c) \<and> (\<forall>j<k. fst (xs ! j) \<noteq> n))"
proof (induction xs)
  case Nil
  then show ?case by simp
next
  case (Cons x xs)
  show ?case
  proof (cases "fst x = n")
    case True
    have "(\<exists>k<length (x # xs). (x # xs) ! k = (n, c) \<and> (\<forall>j<k. fst ((x # xs) ! j) \<noteq> n))
        \<longleftrightarrow> x = (n, c)"
    proof
      assume "\<exists>k<length (x # xs). (x # xs) ! k = (n, c) \<and> (\<forall>j<k. fst ((x # xs) ! j) \<noteq> n)"
      then obtain k where k: "(x # xs) ! k = (n, c)" "\<forall>j<k. fst ((x # xs) ! j) \<noteq> n" by blast
      have "k = 0" using k(2) True by (cases k) auto
      then show "x = (n, c)" using k(1) by simp
    next
      assume "x = (n, c)"
      then show "\<exists>k<length (x # xs). (x # xs) ! k = (n, c) \<and> (\<forall>j<k. fst ((x # xs) ! j) \<noteq> n)"
        by (intro exI [of _ 0]) simp
    qed
    then show ?thesis using True by (cases x) auto
  next
    case False
    have "(\<exists>k<length (x # xs). (x # xs) ! k = (n, c) \<and> (\<forall>j<k. fst ((x # xs) ! j) \<noteq> n))
        \<longleftrightarrow> (\<exists>k<length xs. xs ! k = (n, c) \<and> (\<forall>j<k. fst (xs ! j) \<noteq> n))"
    proof
      assume "\<exists>k<length (x # xs). (x # xs) ! k = (n, c) \<and> (\<forall>j<k. fst ((x # xs) ! j) \<noteq> n)"
      then obtain k where k: "k < length (x # xs)" "(x # xs) ! k = (n, c)"
        "\<forall>j<k. fst ((x # xs) ! j) \<noteq> n" by blast
      then obtain k' where k': "k = Suc k'" using False by (cases k) auto
      have "\<forall>j<k'. fst (xs ! j) \<noteq> n"
      proof (intro allI impI)
        fix j assume "j < k'"
        then have "Suc j < k" using k' by simp
        then have "fst ((x # xs) ! Suc j) \<noteq> n" using k(3) by blast
        then show "fst (xs ! j) \<noteq> n" by simp
      qed
      then show "\<exists>k<length xs. xs ! k = (n, c) \<and> (\<forall>j<k. fst (xs ! j) \<noteq> n)"
        using k k' by (intro exI [of _ k']) simp
    next
      assume "\<exists>k<length xs. xs ! k = (n, c) \<and> (\<forall>j<k. fst (xs ! j) \<noteq> n)"
      then obtain k where k: "k < length xs" "xs ! k = (n, c)" "\<forall>j<k. fst (xs ! j) \<noteq> n"
        by blast
      have "\<forall>j<Suc k. fst ((x # xs) ! j) \<noteq> n"
      proof (intro allI impI)
        fix j assume "j < Suc k"
        then show "fst ((x # xs) ! j) \<noteq> n" using False k(3) by (cases j) auto
      qed
      then show "\<exists>k<length (x # xs). (x # xs) ! k = (n, c) \<and> (\<forall>j<k. fst ((x # xs) ! j) \<noteq> n)"
        using k by (intro exI [of _ "Suc k"]) simp
    qed
    then show ?thesis using Cons False by (cases x) auto
  qed
qed


lemma map_of_last:
  "map_of (rev (map (\<lambda>(n, c). (c, n)) xs)) c = Some n \<longleftrightarrow>
     (\<exists>k<length xs. xs ! k = (n, c) \<and> (\<forall>j<length xs. k < j \<longrightarrow> snd (xs ! j) \<noteq> c))"
proof (induction xs rule: rev_induct)
  case Nil
  then show ?case by simp
next
  case (snoc x xs)
  let ?ys = "xs @ [x]"
  have m: "map_of (rev (map (\<lambda>(n, c). (c, n)) ?ys)) c
      = (if snd x = c then Some (fst x) else map_of (rev (map (\<lambda>(n, c). (c, n)) xs)) c)"
    by (cases x) simp
  show ?case
  proof (cases "snd x = c")
    case True
    have "(\<exists>k<length ?ys. ?ys ! k = (n, c) \<and> (\<forall>j<length ?ys. k < j \<longrightarrow> snd (?ys ! j) \<noteq> c))
        \<longleftrightarrow> x = (n, c)"
    proof
      assume "\<exists>k<length ?ys. ?ys ! k = (n, c) \<and> (\<forall>j<length ?ys. k < j \<longrightarrow> snd (?ys ! j) \<noteq> c)"
      then obtain k where k: "k < length ?ys" "?ys ! k = (n, c)"
        "\<forall>j<length ?ys. k < j \<longrightarrow> snd (?ys ! j) \<noteq> c" by blast
      have "\<not> k < length xs"
      proof
        assume "k < length xs"
        moreover have "length xs < length ?ys" by simp
        ultimately have "snd (?ys ! length xs) \<noteq> c" using k(3) by blast
        then show False using True by simp
      qed
      then have "k = length xs" using k(1) by simp
      then show "x = (n, c)" using k(2) by simp
    next
      assume "x = (n, c)"
      then show "\<exists>k<length ?ys. ?ys ! k = (n, c)
          \<and> (\<forall>j<length ?ys. k < j \<longrightarrow> snd (?ys ! j) \<noteq> c)"
        by (intro exI [of _ "length xs"]) simp
    qed
    then show ?thesis using True m by (cases x) auto
  next
    case False
    have "(\<exists>k<length ?ys. ?ys ! k = (n, c) \<and> (\<forall>j<length ?ys. k < j \<longrightarrow> snd (?ys ! j) \<noteq> c))
        \<longleftrightarrow> (\<exists>k<length xs. xs ! k = (n, c) \<and> (\<forall>j<length xs. k < j \<longrightarrow> snd (xs ! j) \<noteq> c))"
    proof
      assume "\<exists>k<length ?ys. ?ys ! k = (n, c) \<and> (\<forall>j<length ?ys. k < j \<longrightarrow> snd (?ys ! j) \<noteq> c)"
      then obtain k where k: "k < length ?ys" "?ys ! k = (n, c)"
        "\<forall>j<length ?ys. k < j \<longrightarrow> snd (?ys ! j) \<noteq> c" by blast
      have kl: "k < length xs"
      proof (rule ccontr)
        assume "\<not> k < length xs"
        then have "k = length xs" using k(1) by simp
        then show False using k(2) False by simp
      qed
      have "\<forall>j<length xs. k < j \<longrightarrow> snd (xs ! j) \<noteq> c"
      proof (intro allI impI)
        fix j assume j: "j < length xs" "k < j"
        then have "snd (?ys ! j) \<noteq> c" using k(3) by simp
        then show "snd (xs ! j) \<noteq> c" using j by (simp add: nth_append)
      qed
      then show "\<exists>k<length xs. xs ! k = (n, c) \<and> (\<forall>j<length xs. k < j \<longrightarrow> snd (xs ! j) \<noteq> c)"
        using kl k(2) by (intro exI [of _ k]) (simp add: nth_append)
    next
      assume "\<exists>k<length xs. xs ! k = (n, c) \<and> (\<forall>j<length xs. k < j \<longrightarrow> snd (xs ! j) \<noteq> c)"
      then obtain k where k: "k < length xs" "xs ! k = (n, c)"
        "\<forall>j<length xs. k < j \<longrightarrow> snd (xs ! j) \<noteq> c" by blast
      have "\<forall>j<length ?ys. k < j \<longrightarrow> snd (?ys ! j) \<noteq> c"
      proof (intro allI impI)
        fix j assume j: "j < length ?ys" "k < j"
        show "snd (?ys ! j) \<noteq> c"
        proof (cases "j < length xs")
          case True
          then show ?thesis using k(3) j by (simp add: nth_append)
        next
          case False
          then have "j = length xs" using j by simp
          then show ?thesis using \<open>snd x \<noteq> c\<close> by simp
        qed
      qed
      then show "\<exists>k<length ?ys. ?ys ! k = (n, c)
          \<and> (\<forall>j<length ?ys. k < j \<longrightarrow> snd (?ys ! j) \<noteq> c)"
        using k by (intro exI [of _ k]) (simp add: nth_append)
    qed
    then show ?thesis using snoc False m by simp
  qed
qed

lemma buildProvinceMaps_fold:
  "index_of (buildProvinceMaps ds st)
     = fold index_add (map (\<lambda>p. (name p, code p)) (province_data ds)) (index_of st)
   \<and> provinceMap (buildProvinceMaps ds st)
     = provinceMap st ++ map_of (rev (map (\<lambda>p. (province p, p)) (province_data ds)))
   \<and> cityMap (buildProvinceMaps ds st) = cityMap st
   \<and> initialized (buildProvinceMaps ds st) = initialized st"
proof -
  define f where "f = (\<lambda>p s. addAreaCodeMapping
      (s\<lparr>provinceMap := (provinceMap s)(province p \<mapsto> p)\<rparr>) (code p) (name p))"
  have f: "index_of (f p s) = index_add (name p, code p) (index_of s)"
    "provinceMap (f p s) = (provinceMap s)(province p \<mapsto> p)"
    "cityMap (f p s) = cityMap s" "initialized (f p s) = initialized s" for p s
    by (simp_all add: f_def index_of_add)
  have "index_of (fold f ps st) = fold index_add (map (\<lambda>p. (name p, code p)) ps) (index_of st)
   \<and> provinceMap (fold f ps st) = provinceMap st ++ map_of (rev (map (\<lambda>p. (province p, p)) ps))
   \<and> cityMap (fold f ps st) = cityMap st
   \<and> initialized (fold f ps st) = initialized st" for ps
  proof (induction ps arbitrary: st)
    case Nil
    then show ?case by simp
  next
    case (Cons p ps)
    have e: "(provinceMap st)(province p \<mapsto> p) ++ map_of (rev (map (\<lambda>p. (province p, p)) ps))
        = provinceMap st ++ map_of (rev (map (\<lambda>p. (province p, p)) (p # ps)))"
      by (rule ext) (simp add: map_add_def split: option.splits)
    have "fold f (p # ps) st = fold f ps (f p st)" by simp
    moreover have "fold index_add (map (\<lambda>p. (name p, code p)) (p # ps)) (index_of st)
        = fold index_add (map (\<lambda>p. (name p, code p)) ps) (index_of (f p st))"
      by (simp add: f(1))
    ultimately show ?case using Cons [of "f p st"] e by (simp only: f(2,3,4))
  qed
  then show ?thesis by (simp add: buildProvinceMaps_def f_def)
qed


lemma getProvinceName_uninitialised:
  assumes "\<not> initialized st" "getProvinceName st k = Inr n"
  shows "n = (case provinceMap st k of None \<Rightarrow> [] | Some p \<Rightarrow> name p)"
  using assms by (auto simp: getProvinceName_def split: if_splits)

lemma getCityInfo_upd:
  "getCityInfo (st\<lparr>cityMap := (cityMap st)(k \<mapsto>
       (case cityMap st k of None \<Rightarrow> Map.empty | Some m \<Rightarrow> m)(j \<mapsto> c))\<rparr>) k' j'
     = (if k' = k \<and> j' = j then Some c else getCityInfo st k' j')"
  by (auto simp: getCityInfo_def split: option.splits)

lemma getCityInfo_cong:
  "cityMap st = cityMap st' \<Longrightarrow> getCityInfo st k j = getCityInfo st' k j"
  by (simp add: getCityInfo_def)

lemma buildCityMaps_loop_index:
  assumes "buildCityMaps_loop cs st = Inr st'" and "\<not> initialized st"
  shows "index_of st' =
      fold index_add
        (concat (map (\<lambda>c. [((case provinceMap st (province c) of None \<Rightarrow> [] | Some p \<Rightarrow> name p)
                              @ name c, code c), (name c, code c)]) cs))
        (index_of st)
     \<and> provinceMap st' = provinceMap st \<and> initialized st' = initialized st
     \<and> (\<forall>k j. getCityInfo st' k j =
           (case map_of (rev (map (\<lambda>c. ((province c, city c), c)) cs)) (k, j) of
              None \<Rightarrow> getCityInfo st k j | Some c \<Rightarrow> Some c))"
  using assms
proof (induction cs arbitrary: st)
  case Nil
  then show ?case by simp
next
  case (Cons c cs)
  define st1 where "st1 = st\<lparr>cityMap := (cityMap st)(province c \<mapsto>
       (case cityMap st (province c) of None \<Rightarrow> Map.empty | Some m \<Rightarrow> m)(city c \<mapsto> c))\<rparr>"
  have s1: "provinceMap st1 = provinceMap st" "initialized st1 = initialized st"
    "index_of st1 = index_of st"
    by (simp_all add: st1_def)
  obtain pn where pn: "getProvinceName st1 (province c) = Inr pn"
    using Cons(2) by (auto simp: Let_def st1_def split: sum.splits)
  then have pn_eq: "pn = (case provinceMap st (province c) of None \<Rightarrow> [] | Some p \<Rightarrow> name p)"
    using getProvinceName_uninitialised [of st1 "province c" pn] Cons(3) s1 by simp
  define st2 where
    "st2 = addAreaCodeMapping (addAreaCodeMapping st1 (code c) (pn @ name c)) (code c) (name c)"
  have loop: "buildCityMaps_loop cs st2 = Inr st'"
    using Cons(2) pn by (simp add: Let_def st1_def [symmetric] st2_def)
  have s2: "provinceMap st2 = provinceMap st" "initialized st2 = initialized st"
    "cityMap st2 = cityMap st1"
    "index_of st2 = index_add (name c, code c) (index_add (pn @ name c, code c) (index_of st))"
    by (simp_all add: st2_def s1 index_of_add)
  have ih: "index_of st' =
      fold index_add
        (concat (map (\<lambda>c. [((case provinceMap st2 (province c) of None \<Rightarrow> [] | Some p \<Rightarrow> name p)
                              @ name c, code c), (name c, code c)]) cs))
        (index_of st2)
     \<and> provinceMap st' = provinceMap st2 \<and> initialized st' = initialized st2
     \<and> (\<forall>k j. getCityInfo st' k j =
           (case map_of (rev (map (\<lambda>c. ((province c, city c), c)) cs)) (k, j) of
              None \<Rightarrow> getCityInfo st2 k j | Some c \<Rightarrow> Some c))"
    using Cons(1) [OF loop] Cons(3) s2 by simp
  have ci: "getCityInfo st2 k j
      = (if k = province c \<and> j = city c then Some c else getCityInfo st k j)" for k j
    using getCityInfo_cong [OF s2(3), of k j] getCityInfo_upd [of st "province c" "city c" c k j]
    by (simp add: st1_def)
  have 1: "index_of st' =
      fold index_add
        (concat (map (\<lambda>c. [((case provinceMap st (province c) of None \<Rightarrow> [] | Some p \<Rightarrow> name p)
                              @ name c, code c), (name c, code c)]) (c # cs)))
        (index_of st)"
    using ih by (simp add: s2 pn_eq)
  have 2: "getCityInfo st' k j =
           (case map_of (rev (map (\<lambda>c. ((province c, city c), c)) (c # cs))) (k, j) of
              None \<Rightarrow> getCityInfo st k j | Some c \<Rightarrow> Some c)" for k j
    using ih by (auto simp: ci map_add_def split: option.splits)
  show ?case using 1 2 ih s2 by simp
qed


lemma buildAreaMaps_loop_index:
  assumes "buildAreaMaps_loop as st = Inr st'" and "\<not> initialized st"
  shows "index_of st' =
      fold index_add
        (concat (map (\<lambda>a. [((case provinceMap st (province a) of None \<Rightarrow> [] | Some p \<Rightarrow> name p)
                              @ (case getCityInfo st (province a) (city a) of
                                   Some c \<Rightarrow> name c | None \<Rightarrow> [])
                              @ name a, code a), (name a, code a)]) as))
        (index_of st)
     \<and> provinceMap st' = provinceMap st \<and> initialized st' = initialized st
     \<and> cityMap st' = cityMap st"
  using assms
proof (induction as arbitrary: st)
  case Nil
  then show ?case by simp
next
  case (Cons a as)
  define st1 where "st1 = st\<lparr>areaMap :=
      (areaMap st)(province a \<mapsto>
        (case areaMap st (province a) of None \<Rightarrow> Map.empty | Some m \<Rightarrow> m)(city a \<mapsto>
          (case (case areaMap st (province a) of None \<Rightarrow> Map.empty | Some m \<Rightarrow> m) (city a) of
             None \<Rightarrow> Map.empty | Some m \<Rightarrow> m)(area a \<mapsto> a)))\<rparr>"
  have s1: "provinceMap st1 = provinceMap st" "initialized st1 = initialized st"
    "index_of st1 = index_of st" "cityMap st1 = cityMap st"
    by (simp_all add: st1_def)
  obtain pn where pn: "getProvinceName st1 (province a) = Inr pn"
    using Cons(2) by (auto simp: Let_def st1_def split: sum.splits)
  then have pn_eq: "pn = (case provinceMap st (province a) of None \<Rightarrow> [] | Some p \<Rightarrow> name p)"
    using getProvinceName_uninitialised [of st1 "province a" pn] Cons(3) s1 by simp
  define cn where "cn = (case getCityInfo st1 (province a) (city a) of
                           Some c \<Rightarrow> name c | None \<Rightarrow> [])"
  have cn_eq: "cn = (case getCityInfo st (province a) (city a) of Some c \<Rightarrow> name c | None \<Rightarrow> [])"
    using getCityInfo_cong [OF s1(4), of "province a" "city a"] by (simp add: cn_def)
  define st2 where
    "st2 = addAreaCodeMapping (addAreaCodeMapping st1 (code a) (pn @ cn @ name a)) (code a) (name a)"
  have loop: "buildAreaMaps_loop as st2 = Inr st'"
    using Cons(2) pn by (simp add: Let_def st1_def [symmetric] st2_def cn_def)
  have s2: "provinceMap st2 = provinceMap st" "initialized st2 = initialized st"
    "cityMap st2 = cityMap st"
    "index_of st2 = index_add (name a, code a) (index_add (pn @ cn @ name a, code a) (index_of st))"
    by (simp_all add: st2_def s1 index_of_add)
  have ci: "getCityInfo st2 k j = getCityInfo st k j" for k j
    using getCityInfo_cong [OF s2(3)] by simp
  have ih: "index_of st' =
      fold index_add
        (concat (map (\<lambda>a. [((case provinceMap st2 (province a) of None \<Rightarrow> [] | Some p \<Rightarrow> name p)
                              @ (case getCityInfo st2 (province a) (city a) of
                                   Some c \<Rightarrow> name c | None \<Rightarrow> [])
                              @ name a, code a), (name a, code a)]) as))
        (index_of st2)
     \<and> provinceMap st' = provinceMap st2 \<and> initialized st' = initialized st2
     \<and> cityMap st' = cityMap st2"
    using Cons(1) [OF loop] Cons(3) s2 by simp
  show ?case using ih by (simp add: s2 ci pn_eq cn_eq)
qed

lemma buildTownMaps_index: "index_of (buildTownMaps ds st) = index_of st"
proof -
  define f :: "town_rec \<Rightarrow> generator \<Rightarrow> generator" where "f = (\<lambda>t s. s\<lparr>townMap :=
       (townMap s)(code t \<mapsto> (case townMap s (code t) of None \<Rightarrow> [] | Some ts \<Rightarrow> ts) @ [t])\<rparr>)"
  have f: "index_of (f t s) = index_of s" for t s
    by (simp add: f_def)
  have "index_of (fold f ts st) = index_of st" for ts
    by (induction ts arbitrary: st) (simp_all add: f)
  then show ?thesis by (simp add: buildTownMaps_def f_def)
qed

lemma map_of_map_value:
  "map_of (map (\<lambda>p. (f p, g p)) xs) k = map_option g (map_of (map (\<lambda>p. (f p, p)) xs) k)"
  by (induction xs) simp_all


lemma map_of_rev_map_value:
  "map_of (rev (map (\<lambda>p. (f p, g p)) xs)) k = map_option g (map_of (rev (map (\<lambda>p. (f p, p)) xs)) k)"
  unfolding rev_map by (rule map_of_map_value)

lemma init_index:
  assumes "ensureInitialized ds new_generator = Inr st1"
  shows "index_of st1 = fold index_add (index_insertions ds) ([], Map.empty)"
proof -
  define sp where "sp = buildProvinceMaps ds new_generator"
  have n: "\<not> initialized new_generator" "index_of new_generator = ([], Map.empty)"
    "provinceMap new_generator = Map.empty" "cityMap new_generator = Map.empty"
    by (simp_all add: new_generator_def index_of_def)
  obtain st2 st3 where
    a: "buildCityMaps_loop (city_data ds) sp = Inr st2"
    and b: "buildAreaMaps_loop (area_data ds) st2 = Inr st3"
    and c: "st1 = (buildTownMaps ds st3)\<lparr>initialized := True\<rparr>"
    using assms n(1)
    by (auto simp: ensureInitialized_def initData_def buildCityMaps_def buildAreaMaps_def sp_def
        split: sum.splits)
  have p: "index_of sp = fold index_add (map (\<lambda>p. (name p, code p)) (province_data ds)) ([], Map.empty)"
    "provinceMap sp = map_of (rev (map (\<lambda>p. (province p, p)) (province_data ds)))"
    "cityMap sp = Map.empty" "\<not> initialized sp"
    using buildProvinceMaps_fold [of ds new_generator] n by (simp_all add: sp_def)
  have pn: "(case provinceMap sp k of None \<Rightarrow> [] | Some p \<Rightarrow> name p) = provinceNameOf ds k" for k
    unfolding provinceNameOf_def p(2)
    by (simp add: map_of_rev_map_value [of province name] split: option.splits)
  note cl = buildCityMaps_loop_index [OF a p(4)]
  have c2: "index_of st2 = fold index_add
      (concat (map (\<lambda>c. [(provinceNameOf ds (province c) @ name c, code c), (name c, code c)])
                 (city_data ds))) (index_of sp)"
    "provinceMap st2 = provinceMap sp" "\<not> initialized st2"
    using cl p(4) by (simp_all add: pn)
  have "getCityInfo sp k j = None" for k j
    by (simp add: getCityInfo_def p(3))
  then have ci: "getCityInfo st2 k j
      = map_of (rev (map (\<lambda>c. ((province c, city c), c)) (city_data ds))) (k, j)" for k j
    using cl by (simp split: option.splits)
  have cn: "(case getCityInfo st2 k j of Some c \<Rightarrow> name c | None \<Rightarrow> []) = cityNameOf ds k j" for k j
    unfolding cityNameOf_def ci
    by (simp add: map_of_rev_map_value [of "\<lambda>c. (province c, city c)" name] split: option.splits)
  note al = buildAreaMaps_loop_index [OF b c2(3)]
  have a3: "index_of st3 = fold index_add
      (concat (map (\<lambda>a. [(provinceNameOf ds (province a)
                             @ cityNameOf ds (province a) (city a) @ name a, code a),
                          (name a, code a)])
                 (area_data ds))) (index_of st2)"
    using al by (simp add: cn c2(2) pn)
  have "index_of st1 = index_of st3" by (simp add: c buildTownMaps_index)
  then show ?thesis
    by (simp add: a3 c2(1) p(1) index_insertions_def)
qed

lemma district_blocks:
  "map_of (rev (map (\<lambda>(n, c). (c, n)) (concat (map (\<lambda>a. [(f a, code a), (name a, code a)]) as)))) k
     = map_of (rev (map (\<lambda>a. (code a, name a)) as)) k"
  by (induction as rule: rev_induct) simp_all

lemma map_of_rev_in:
  assumes "a \<in> set as"
  shows "\<exists>b\<in>set as. code b = code a \<and> map_of (rev (map (\<lambda>a. (code a, name a)) as)) (code a) = Some (name b)"
proof -
  have "code a \<in> fst ` set (rev (map (\<lambda>a. (code a, name a)) as))"
    using assms by force
  then obtain n where n: "map_of (rev (map (\<lambda>a. (code a, name a)) as)) (code a) = Some n"
    by (cases "map_of (rev (map (\<lambda>a. (code a, name a)) as)) (code a)")
      (auto simp: map_of_eq_None_iff)
  then have "(code a, n) \<in> set (rev (map (\<lambda>a. (code a, name a)) as))" by (rule map_of_SomeD)
  then show ?thesis using n by auto
qed

section \<open>The sequence code\<close>

text \<open>
  Claim C3. For a gender of 0 or 1 and every value that \<^verbatim>\<open>Math.random()\<close> can return,
  the sequence code is three digits whose number lies between 1 and 999, is odd for
  gender 1 and even for gender 0, and differs from the number drawn by at most one: it
  is the number drawn when the parity fits, the next number for gender 1, and for gender
  0 the previous number, or 2 when the number drawn is 1.
\<close>

theorem sequence_code_parity:
  assumes "unit_double r" "g = 0 \<or> g = 1"
  shows "\<exists>num. parseInt (generateSequenceCode g r) = Some num
           \<and> length (generateSequenceCode g r) = 3
           \<and> list_all isDigit (generateSequenceCode g r)
           \<and> 1 \<le> num \<and> num \<le> 999
           \<and> (g = 1 \<longrightarrow> odd num) \<and> (g = 0 \<longrightarrow> even num)
           \<and> \<bar>num - (random_floor r 999 + 1)\<bar> \<le> 1
           \<and> num = (let drawn = random_floor r 999 + 1
                    in if odd drawn = (g = 1) then drawn
                       else if g = 1 then drawn + 1
                       else if drawn = 1 then 2 else drawn - 1)"
proof -
  define n0 where "n0 = random_floor r 999 + 1"
  have n0: "1 \<le> n0" "n0 \<le> 999"
    using random_floor_bounds [OF assms(1), of 999] by (simp_all add: n0_def)
  define num where
    "num = (if (g = 1 \<and> \<not> n0 mod 2 = 1) \<or> (g = 0 \<and> n0 mod 2 = 1)
            then (let m = n0 + (if g = 1 then 1 else - 1);
                      m = (if m > 999 then 999 else m);
                      m = (if m < 1 then 2 else m)
                  in m)
            else n0)"
  have gen: "generateSequenceCode g r = pad (Some num) 3"
    by (simp add: generateSequenceCode_def num_def n0_def Let_def)
  have range: "1 \<le> num" "num \<le> 999"
    using n0 by (auto simp: num_def Let_def)
  have parity: "g = 1 \<longrightarrow> odd num" "g = 0 \<longrightarrow> even num"
    using n0 assms(2) by (auto simp: num_def Let_def odd_iff_mod_2_eq_one)
  have near: "\<bar>num - n0\<bar> \<le> 1"
    using n0 by (auto simp: num_def Let_def)
  have exact: "num = (if odd n0 = (g = 1) then n0
                      else if g = 1 then n0 + 1
                      else if n0 = 1 then 2 else n0 - 1)"
    using n0 assms(2) by (auto simp: num_def Let_def odd_iff_mod_2_eq_one)
  have p: "length (pad (Some num) 3) = 3" "list_all isDigit (pad (Some num) 3)"
    "numeral_value 10 (pad (Some num) 3) = nat num"
    using pad_nat [of num 3] range by simp_all
  have "pad (Some num) 3 \<noteq> []" using p(1) by auto
  then have "parseInt (pad (Some num) 3) = Some num"
    using parseInt_digits p(2,3) range by simp
  then have "parseInt (generateSequenceCode g r) = Some num
           \<and> length (generateSequenceCode g r) = 3
           \<and> list_all isDigit (generateSequenceCode g r)
           \<and> 1 \<le> num \<and> num \<le> 999
           \<and> (g = 1 \<longrightarrow> odd num) \<and> (g = 0 \<longrightarrow> even num)
           \<and> \<bar>num - (random_floor r 999 + 1)\<bar> \<le> 1
           \<and> num = (let drawn = random_floor r 999 + 1
                    in if odd drawn = (g = 1) then drawn
                       else if g = 1 then drawn + 1
                       else if drawn = 1 then 2 else drawn - 1)"
    unfolding Let_def n0_def [symmetric] using gen p range parity near exact by simp
  then show ?thesis by (rule exI)
qed

theorem sequence_code_parity_witness:
  "unit_double \<lparr>mantissa = 599578328769045, scale = 52\<rparr> \<and> ((1::int) = 0 \<or> (1::int) = 1)
   \<and> generateSequenceCode 1 \<lparr>mantissa = 599578328769045, scale = 52\<rparr> = js ''135''
   \<and> (\<exists>num. parseInt (generateSequenceCode 1 \<lparr>mantissa = 599578328769045, scale = 52\<rparr>) = Some num
         \<and> num = 135 \<and> odd num)"
proof -
  have u: "unit_double \<lparr>mantissa = 599578328769045, scale = 52\<rparr>"
    by (simp add: unit_double_def)
  have v: "generateSequenceCode 1 \<lparr>mantissa = 599578328769045, scale = 52\<rparr> = js ''135''"
    by (simp add: generateSequenceCode_def random_floor_rounded_product pad_def padStart0_def
        String_number_def String_int_def digits.simps digitChar_def js_def)
  have "parseInt (js ''135'') = Some 135"
    by (simp add: parseInt_def js_def isWhiteSpace_def digitValue_def numeral_value_def)
  then show ?thesis
    using sequence_code_parity [of "\<lparr>mantissa = 599578328769045, scale = 52\<rparr>" 1] u v by auto
qed

section \<open>Random birth dates\<close>

text \<open>
  Claim C9. Every birth date that \<open>getRandomBirthday\<close> returns is a year from 1950 to
  2005, a month from 1 to 12 and a day from 1 to the length of that month under the
  Gregorian rule, written as eight digits, each of the three being the number drawn for
  it; every such date is returned for some random values; and \<open>isLeapYear\<close> is the
  Gregorian leap rule, so that 2000-02-29 can be drawn and a year divisible by 100 but
  not by 400 has no 29 February.
\<close>

theorem random_birthday_gregorian:
  "(\<forall>ry rm rd. unit_double ry \<and> unit_double rm \<and> unit_double rd \<longrightarrow>
      (\<exists>y m d. getRandomBirthday ry rm rd
                 = String_number (Some y) @ pad (Some m) 2 @ pad (Some d) 2
         \<and> regex_d8 (getRandomBirthday ry rm rd)
         \<and> 1950 \<le> y \<and> y \<le> 2005 \<and> 1 \<le> m \<and> m \<le> 12
         \<and> 1 \<le> d \<and> d \<le> gregorian_month_length y m
         \<and> y = 1950 + random_floor ry 56 \<and> m = random_floor rm 12 + 1
         \<and> d = random_floor rd (gregorian_month_length y m) + 1))
   \<and> (\<forall>y m d. 1950 \<le> y \<and> y \<le> 2005 \<and> 1 \<le> m \<and> m \<le> 12
                \<and> 1 \<le> d \<and> d \<le> gregorian_month_length y m \<longrightarrow>
      (\<exists>ry rm rd. unit_double ry \<and> unit_double rm \<and> unit_double rd
         \<and> getRandomBirthday ry rm rd
             = String_number (Some y) @ pad (Some m) 2 @ pad (Some d) 2))
   \<and> (\<forall>y. isLeapYear y \<longleftrightarrow> (4 dvd y \<and> \<not> 100 dvd y) \<or> 400 dvd y)"
proof (intro conjI allI impI)
  fix ry rm rd :: jsdouble
  assume u: "unit_double ry \<and> unit_double rm \<and> unit_double rd"
  show "\<exists>y m d. getRandomBirthday ry rm rd
                 = String_number (Some y) @ pad (Some m) 2 @ pad (Some d) 2
         \<and> regex_d8 (getRandomBirthday ry rm rd)
         \<and> 1950 \<le> y \<and> y \<le> 2005 \<and> 1 \<le> m \<and> m \<le> 12
         \<and> 1 \<le> d \<and> d \<le> gregorian_month_length y m
         \<and> y = 1950 + random_floor ry 56 \<and> m = random_floor rm 12 + 1
         \<and> d = random_floor rd (gregorian_month_length y m) + 1"
    using u by (intro getRandomBirthday_sound) simp_all
next
  fix y m d :: int
  assume a: "1950 \<le> y \<and> y \<le> 2005 \<and> 1 \<le> m \<and> m \<le> 12
                \<and> 1 \<le> d \<and> d \<le> gregorian_month_length y m"
  define ry where "ry = draw_for (y - 1950) 56"
  define rm where "rm = draw_for (m - 1) 12"
  define rd where "rd = draw_for (d - 1) (gregorian_month_length y m)"
  have g: "gregorian_month_length y m \<le> 64" by (simp add: gregorian_month_length_def)
  have ry: "random_floor ry 56 = y - 1950" "unit_double ry"
    unfolding ry_def using random_floor_hit [of "y - 1950" 56] a by simp_all
  have rm: "random_floor rm 12 = m - 1" "unit_double rm"
    unfolding rm_def using random_floor_hit [of "m - 1" 12] a by simp_all
  have rd: "random_floor rd (gregorian_month_length y m) = d - 1" "unit_double rd"
    unfolding rd_def using random_floor_hit [of "d - 1" "gregorian_month_length y m"] a g
    by simp_all
  have "getRandomBirthday ry rm rd = String_number (Some y) @ pad (Some m) 2 @ pad (Some d) 2"
    using getRandomBirthday_eq [of rm ry rd] ry rm rd by simp
  then show "\<exists>ry rm rd. unit_double ry \<and> unit_double rm \<and> unit_double rd
         \<and> getRandomBirthday ry rm rd
             = String_number (Some y) @ pad (Some m) 2 @ pad (Some d) 2"
    using ry rm rd by blast
next
  fix y show "isLeapYear y \<longleftrightarrow> (4 dvd y \<and> \<not> 100 dvd y) \<or> 400 dvd y"
    by (simp add: isLeapYear_def dvd_eq_mod_eq_0)
qed

theorem random_birthday_gregorian_witness:
  "getRandomBirthday \<lparr>mantissa = 0, scale = 0\<rparr> \<lparr>mantissa = 3752999689475413, scale = 52\<rparr>
       \<lparr>mantissa = 4503599627370495, scale = 52\<rparr> = js ''19501130''
   \<and> (\<exists>y m d. getRandomBirthday \<lparr>mantissa = 0, scale = 0\<rparr>
                  \<lparr>mantissa = 3752999689475413, scale = 52\<rparr>
                  \<lparr>mantissa = 4503599627370495, scale = 52\<rparr>
                 = String_number (Some y) @ pad (Some m) 2 @ pad (Some d) 2
         \<and> 1950 \<le> y \<and> y \<le> 2005 \<and> 1 \<le> m \<and> m \<le> 12
         \<and> 1 \<le> d \<and> d \<le> gregorian_month_length y m)
   \<and> (\<exists>ry rm rd. unit_double ry \<and> unit_double rm \<and> unit_double rd
         \<and> getRandomBirthday ry rm rd = js ''20000229'')
   \<and> isLeapYear 2000 \<and> \<not> isLeapYear 1900"
proof -
  have v: "getRandomBirthday \<lparr>mantissa = 0, scale = 0\<rparr> \<lparr>mantissa = 3752999689475413, scale = 52\<rparr>
       \<lparr>mantissa = 4503599627370495, scale = 52\<rparr> = js ''19501130''"
    by (simp add: getRandomBirthday_def random_floor_rounded_product pad_def padStart0_def
        isLeapYear_def String_number_def String_int_def digits.simps digitChar_def js_def)
  have s: "String_number (Some 2000) @ pad (Some 2) 2 @ pad (Some 29) 2 = js ''20000229''"
    by (simp add: pad_def padStart0_def
        String_number_def String_int_def digits.simps digitChar_def js_def)
  have g: "gregorian_month_length 2000 2 = 29"
    by (simp add: gregorian_month_length_def)
  have t1: "unit_double \<lparr>mantissa = 0, scale = 0\<rparr>
      \<and> unit_double \<lparr>mantissa = 3752999689475413, scale = 52\<rparr>
      \<and> unit_double \<lparr>mantissa = 4503599627370495, scale = 52\<rparr>"
    by (simp add: unit_double_def)
  have t2: "(1950::int) \<le> 2000 \<and> (2000::int) \<le> 2005 \<and> (1::int) \<le> 2 \<and> (2::int) \<le> 12
      \<and> (1::int) \<le> 29 \<and> 29 \<le> gregorian_month_length 2000 2" by (simp add: g)
  note t = random_birthday_gregorian
  have l: "isLeapYear 2000 \<and> \<not> isLeapYear 1900"
    using t [THEN conjunct2, THEN conjunct2] by simp
  have 1: "\<exists>y m d. getRandomBirthday \<lparr>mantissa = 0, scale = 0\<rparr>
                  \<lparr>mantissa = 3752999689475413, scale = 52\<rparr>
                  \<lparr>mantissa = 4503599627370495, scale = 52\<rparr>
                 = String_number (Some y) @ pad (Some m) 2 @ pad (Some d) 2
         \<and> 1950 \<le> y \<and> y \<le> 2005 \<and> 1 \<le> m \<and> m \<le> 12
         \<and> 1 \<le> d \<and> d \<le> gregorian_month_length y m"
    using t [THEN conjunct1, rule_format, OF t1] by blast
  have 2: "\<exists>ry rm rd. unit_double ry \<and> unit_double rm \<and> unit_double rd
         \<and> getRandomBirthday ry rm rd = js ''20000229''"
    using t [THEN conjunct2, THEN conjunct1, rule_format, OF t2] by (simp only: s)
  show ?thesis
    using v 1 2 l by blast
qed

section \<open>The check code\<close>

text \<open>
  Claim C1. When the options pass the validation (each of them valid, empty or absent)
  and, for a random area code, the eligible codes of the reference data are 6-digit
  strings and there is one, \<open>generateIdCard\<close> returns 18 characters, the first 17
  are digits, and the 18th is the entry of the table 1, 0, X, 9, 8, 7, 6, 5, 4, 3, 2 at
  the weighted sum of the 17 digits modulo 11, with the weights 7, 9, 10, 5, 8, 4, 2, 1,
  6, 3, 7, 9, 10, 5, 8, 4, 2.
\<close>

theorem generated_number_check_code:
  assumes "ensureInitialized ds st = Inr st1"
    and "validateIdCardOptions opts = Inr ()"
    and "\<not> truthy (areaCode opts) \<Longrightarrow>
        (randomAreaCodes st = None \<or> randomAreaCodes st = Some (eligibleAreaCodes ds))
        \<and> eligibleAreaCodes ds \<noteq> [] \<and> (\<forall>c\<in>set (eligibleAreaCodes ds). regex_d6 c)"
    and "valid_draws rnd"
  shows "\<exists>s st'. generateIdCard ds st opts rnd = Inr (s, st')
      \<and> length s = 18 \<and> list_all isDigit (take 17 s)
      \<and> drop 17 s =
          [js ''1'', js ''0'', js ''X'', js ''9'', js ''8'', js ''7'', js ''6'', js ''5'',
           js ''4'', js ''3'', js ''2'']
          ! nat ((\<Sum>i<17. int (s ! i - 48)
                        * [7, 9, 10, 5, 8, 4, 2, 1, 6, 3, 7, 9, 10, 5, 8, 4, 2] ! i) mod 11)"
proof -
  obtain ac bd sq st' where g: "generateIdCard ds st opts rnd =
      Inr (ac @ bd @ sq @ ID_CHECK_CODES !
             nat ((\<Sum>i<17. int ((ac @ bd @ sq) ! i - 48) * ID_WEIGHTS ! i) mod 11), st')"
    and p: "regex_d6 ac" "regex_d8 bd" "length sq = 3" "list_all isDigit sq"
    using generateIdCard_digits [OF assms] by blast
  define base where "base = ac @ bd @ sq"
  define k where "k = nat ((\<Sum>i<17. int (base ! i - 48) * ID_WEIGHTS ! i) mod 11)"
  have b: "length base = 17" "list_all isDigit base"
    using p by (simp_all add: base_def regex_d6_def regex_d8_def)
  have "k < 11" by (simp add: k_def nat_less_iff)
  then have c: "length (ID_CHECK_CODES ! k) = 1" by (rule check_code_length)
  have s: "(\<Sum>i<17. int ((base @ ID_CHECK_CODES ! k) ! i - 48) * ID_WEIGHTS ! i)
      = (\<Sum>i<17. int (base ! i - 48) * ID_WEIGHTS ! i)"
    using b(1) by (intro sum.cong) (simp_all add: nth_append)
  have "generateIdCard ds st opts rnd = Inr (base @ ID_CHECK_CODES ! k, st')"
    using g by (simp add: base_def k_def)
  moreover have "length (base @ ID_CHECK_CODES ! k) = 18" using b c by simp
  moreover have "list_all isDigit (take 17 (base @ ID_CHECK_CODES ! k))" using b by simp
  moreover have "drop 17 (base @ ID_CHECK_CODES ! k) = ID_CHECK_CODES !
      nat ((\<Sum>i<17. int ((base @ ID_CHECK_CODES ! k) ! i - 48) * ID_WEIGHTS ! i) mod 11)"
    unfolding s using b by (simp add: k_def)
  ultimately show ?thesis
    unfolding ID_CHECK_CODES_def ID_WEIGHTS_def by blast
qed

theorem generated_number_check_code_witness:
  "validateIdCardOptions \<lparr>areaCode = None, birthday = None, gender = None\<rparr> = Inr ()
   \<and> valid_draws example_draws
   \<and> eligibleAreaCodes example_data = [js ''110101'', js ''420101'', js ''420102'']
   \<and> (\<exists>s st'. generateIdCard example_data new_generator
                   \<lparr>areaCode = None, birthday = None, gender = None\<rparr> example_draws = Inr (s, st')
      \<and> length s = 18 \<and> list_all isDigit (take 17 s)
      \<and> drop 17 s =
          [js ''1'', js ''0'', js ''X'', js ''9'', js ''8'', js ''7'', js ''6'', js ''5'',
           js ''4'', js ''3'', js ''2'']
          ! nat ((\<Sum>i<17. int (s ! i - 48)
                        * [7, 9, 10, 5, 8, 4, 2, 1, 6, 3, 7, 9, 10, 5, 8, 4, 2] ! i) mod 11))"
proof -
  obtain st1 where i: "ensureInitialized example_data new_generator = Inr st1"
    using example_init by blast
  have v: "validateIdCardOptions \<lparr>areaCode = None, birthday = None, gender = None\<rparr> = Inr ()"
    by (simp add: validateIdCardOptions_def truthy_def)
  have d: "(randomAreaCodes new_generator = None
          \<or> randomAreaCodes new_generator = Some (eligibleAreaCodes example_data))
        \<and> eligibleAreaCodes example_data \<noteq> []
        \<and> (\<forall>c\<in>set (eligibleAreaCodes example_data). regex_d6 c)"
    by (simp add: example_eligible new_generator_def regex_d6_def js_def isDigit_def)
  show ?thesis
    using generated_number_check_code [OF i v d example_valid_draws] v example_valid_draws
      example_eligible by simp
qed

section \<open>Decoding a generated number\<close>

text \<open>
  Claim C2. For a 6-digit area code, a birth date of eight digits and a gender of 0 or
  1, the number that \<open>generateIdCard\<close> returns has the area code as its characters 1
  to 6 and the birth date as its characters 7 to 14, and \<open>extractInfoFromIdCard\<close>
  reads from it the year, the month and the day that the eight digits denote.
\<close>

theorem decode_encode_round_trip:
  assumes "ensureInitialized ds st = Inr st1"
    and "regex_d6 a"
    and "b = map digitChar [y1, y2, y3, y4, m1, m2, d1, d2]"
    and "\<forall>d\<in>set [y1, y2, y3, y4, m1, m2, d1, d2]. d < 10"
    and "g = 0 \<or> g = 1"
  shows "\<exists>s st'. generateIdCard ds st \<lparr>areaCode = Some a, birthday = Some b, gender = Some g\<rparr> rnd
                   = Inr (s, st')
      \<and> substring s 0 6 = a \<and> substring s 6 14 = b
      \<and> birthYear (extractInfoFromIdCard today s) = Some (int (1000 * y1 + 100 * y2 + 10 * y3 + y4))
      \<and> birthMonth (extractInfoFromIdCard today s) = Some (int (10 * m1 + m2))
      \<and> birthDay (extractInfoFromIdCard today s) = Some (int (10 * d1 + d2))"
proof -
  let ?opts = "\<lparr>areaCode = Some a, birthday = Some b, gender = Some g\<rparr>"
  have dg: "y1 < 10" "y2 < 10" "y3 < 10" "y4 < 10" "m1 < 10" "m2 < 10" "d1 < 10" "d2 < 10"
    using assms(4) by simp_all
  have b8: "regex_d8 b"
    using dg by (simp add: regex_d8_def assms(3) isDigit_digitChar)
  have la: "length a = 6" and lb: "length b = 8"
    using assms(2,3) by (simp_all add: regex_d6_def)
  have t: "truthy (areaCode ?opts)" "truthy (birthday ?opts)"
    using la lb by (auto simp: truthy_def)
  have v: "validateIdCardOptions ?opts = Inr ()"
    using assms(2,5) b8 by (auto simp: validateIdCardOptions_def String_opt_def)
  obtain ac st' tl where g: "generateIdCard ds st ?opts rnd = Inr (ac @ b @ tl, st')"
    and ac: "ac = a"
    using generateIdCard_unfold [OF assms(1) v, of rnd] t by (auto simp: String_opt_def)
  define s where "s = a @ b @ tl"
  have s1: "substring s 0 6 = a" "substring s 6 14 = b"
    using la lb by (simp_all add: s_def substring_def)
  have s2: "substring s 6 10 = map digitChar [y1, y2, y3, y4]"
    "substring s 10 12 = map digitChar [m1, m2]" "substring s 12 14 = map digitChar [d1, d2]"
    using la by (simp_all add: s_def substring_def assms(3))
  have p: "parseInt (map digitChar [y1, y2, y3, y4]) = Some (int (1000 * y1 + 100 * y2 + 10 * y3 + y4))"
    "parseInt (map digitChar [m1, m2]) = Some (int (10 * m1 + m2))"
    "parseInt (map digitChar [d1, d2]) = Some (int (10 * d1 + d2))"
    using parseInt_digits [of "map digitChar [y1, y2, y3, y4]"]
      parseInt_digits [of "map digitChar [m1, m2]"] parseInt_digits [of "map digitChar [d1, d2]"]
      numeral_value_4 [of y1 y2 y3 y4] numeral_value_2 [of m1 m2] numeral_value_2 [of d1 d2] dg
    by (simp_all add: isDigit_digitChar)
  show ?thesis
    using g ac s1 p unfolding extract_fields s2 [symmetric] s_def by blast
qed


theorem decode_encode_round_trip_witness:
  "regex_d6 (js ''110101'') \<and> js ''19900101'' = map digitChar [1, 9, 9, 0, 0, 1, 0, 1]
   \<and> (\<exists>s st'. generateIdCard example_data new_generator
          \<lparr>areaCode = Some (js ''110101''), birthday = Some (js ''19900101''), gender = Some 1\<rparr>
          example_draws = Inr (s, st')
      \<and> substring s 0 6 = js ''110101'' \<and> substring s 6 14 = js ''19900101''
      \<and> birthYear (extractInfoFromIdCard example_today s) = Some 1990
      \<and> birthMonth (extractInfoFromIdCard example_today s) = Some 1
      \<and> birthDay (extractInfoFromIdCard example_today s) = Some 1)"
proof -
  obtain st1 where i: "ensureInitialized example_data new_generator = Inr st1"
    using example_init by blast
  have a: "regex_d6 (js ''110101'')" by (simp add: regex_d6_def js_def isDigit_def)
  have b: "js ''19900101'' = map digitChar [1, 9, 9, 0, 0, 1, 0, 1]"
    by (simp add: js_def digitChar_def)
  have d: "\<forall>d\<in>set [1, 9, 9, 0, 0, 1, 0, 1::nat]. d < 10" by simp
  have g: "(1::int) = 0 \<or> (1::int) = 1" by simp
  show ?thesis
    using decode_encode_round_trip [OF i a b d g, of example_draws example_today] a b by simp
qed


section \<open>The age\<close>

text \<open>
  Claim C8. Let the characters 7 to 14 of a number be eight digits, and let the year, the
  month and the day be the numbers that the first four, the next two and the last two of
  them denote. Then these are the decoded birth year, month and day, and the decoded age
  is the current year minus this year, less one exactly when the current month is before
  this month, or is this month and the current day is before this day. So a birth date
  on today's month and day \<open>n\<close> years ago gives \<open>n\<close>, and one on the day after it (the
  next day of this month, or the first of the next month) gives \<open>n - 1\<close>.
\<close>

theorem decoded_age:
  assumes "substring s 6 14 = map digitChar [y1, y2, y3, y4, m1, m2, d1, d2]"
    and "\<forall>k\<in>set [y1, y2, y3, y4, m1, m2, d1, d2]. k < 10"
  shows "let y = int (1000 * y1 + 100 * y2 + 10 * y3 + y4);
             m = int (10 * m1 + m2);
             d = int (10 * d1 + d2)
         in birthYear (extractInfoFromIdCard today s) = Some y
      \<and> birthMonth (extractInfoFromIdCard today s) = Some m
      \<and> birthDay (extractInfoFromIdCard today s) = Some d
      \<and> age (extractInfoFromIdCard today s) =
          Some (getFullYear today - y
                - (if getMonth today + 1 < m \<or> (getMonth today + 1 = m \<and> getDate today < d)
                   then 1 else 0))
      \<and> (\<forall>n. y = getFullYear today - n \<and> m = getMonth today + 1 \<and> d = getDate today
             \<longrightarrow> age (extractInfoFromIdCard today s) = Some n)
      \<and> (\<forall>n. y = getFullYear today - n
               \<and> ((m = getMonth today + 1 \<and> d = getDate today + 1)
                   \<or> (m = getMonth today + 2 \<and> d = 1))
             \<longrightarrow> age (extractInfoFromIdCard today s) = Some (n - 1))"
proof -
  define y where "y = int (1000 * y1 + 100 * y2 + 10 * y3 + y4)"
  define m where "m = int (10 * m1 + m2)"
  define d where "d = int (10 * d1 + d2)"
  have dg: "y1 < 10" "y2 < 10" "y3 < 10" "y4 < 10" "m1 < 10" "m2 < 10" "d1 < 10" "d2 < 10"
    using assms(2) by simp_all
  have "substring s 6 10 = take 4 (substring s 6 14)"
    "substring s 10 12 = take 2 (drop 4 (substring s 6 14))"
    "substring s 12 14 = take 2 (drop 6 (substring s 6 14))"
    by (simp_all add: substring_def drop_take)
  then have s2: "substring s 6 10 = map digitChar [y1, y2, y3, y4]"
    "substring s 10 12 = map digitChar [m1, m2]" "substring s 12 14 = map digitChar [d1, d2]"
    unfolding assms(1) by simp_all
  have p: "parseInt (substring s 6 10) = Some y"
    "parseInt (substring s 10 12) = Some m" "parseInt (substring s 12 14) = Some d"
    unfolding s2 y_def m_def d_def
    using parseInt_digits [of "map digitChar [y1, y2, y3, y4]"]
      parseInt_digits [of "map digitChar [m1, m2]"] parseInt_digits [of "map digitChar [d1, d2]"]
      numeral_value_4 [of y1 y2 y3 y4] numeral_value_2 [of m1 m2] numeral_value_2 [of d1 d2] dg
    by (simp_all add: isDigit_digitChar)
  have a: "age (extractInfoFromIdCard today s) =
     Some (getFullYear today - y
           - (if getMonth today + 1 < m \<or> (getMonth today + 1 = m \<and> getDate today < d)
              then 1 else 0))"
    using p by (rule extract_age)
  show ?thesis
    unfolding Let_def y_def [symmetric] m_def [symmetric] d_def [symmetric]
    by (auto simp: extract_fields p a)
qed

theorem decoded_age_witness:
  "substring (js ''110101199011035013'') 6 14 = map digitChar [1, 9, 9, 0, 1, 1, 0, 3]
   \<and> substring (js ''110101199011045019'') 6 14 = map digitChar [1, 9, 9, 0, 1, 1, 0, 4]
   \<and> substring (js ''110101199001015019'') 6 14 = map digitChar [1, 9, 9, 0, 0, 1, 0, 1]
   \<and> birthYear (extractInfoFromIdCard example_today (js ''110101199011035013'')) = Some 1990
   \<and> birthMonth (extractInfoFromIdCard example_today (js ''110101199011035013'')) = Some 11
   \<and> birthDay (extractInfoFromIdCard example_today (js ''110101199011035013'')) = Some 3
   \<and> age (extractInfoFromIdCard example_today (js ''110101199011035013'')) = Some 36
   \<and> age (extractInfoFromIdCard example_today (js ''110101199011045019'')) = Some 35
   \<and> age (extractInfoFromIdCard example_today (js ''110101199001015019'')) = Some 36"
proof -
  have s: "substring (js ''110101199011035013'') 6 14 = map digitChar [1, 9, 9, 0, 1, 1, 0, 3]"
    "substring (js ''110101199011045019'') 6 14 = map digitChar [1, 9, 9, 0, 1, 1, 0, 4]"
    "substring (js ''110101199001015019'') 6 14 = map digitChar [1, 9, 9, 0, 0, 1, 0, 1]"
    by (simp_all add: js_def substring_def digitChar_def)
  have d: "\<forall>k\<in>set [1, 9, 9, 0, 1, 1, 0, 3::nat]. k < 10"
    "\<forall>k\<in>set [1, 9, 9, 0, 1, 1, 0, 4::nat]. k < 10"
    "\<forall>k\<in>set [1, 9, 9, 0, 0, 1, 0, 1::nat]. k < 10"
    by simp_all
  have e: "getFullYear example_today = 2026" "getMonth example_today = 10"
    "getDate example_today = 3"
    by (simp_all add: example_today_def)
  show ?thesis
    using decoded_age [OF s(1) d(1), of example_today]
      decoded_age [OF s(2) d(2), of example_today]
      decoded_age [OF s(3) d(3), of example_today] s
    by (simp add: Let_def e)
qed

section \<open>An empty area code\<close>

text \<open>
  Claim C10 says that \<open>generateIdCard\<close> never raises a validation error when the area
  code is the empty string. The empty string only skips the check of the area code: the
  checks of the birth date and of the gender are still made, and a gender of 2 is
  rejected.
\<close>

theorem falsy_area_code_counterexample:
  "areaCode \<lparr>areaCode = Some [], birthday = None, gender = Some 2\<rparr> = Some []
   \<and> map_sum id fst (generateIdCard example_data new_generator
                        \<lparr>areaCode = Some [], birthday = None, gender = Some 2\<rparr> example_draws)
       = Inl GenderError"
proof -
  obtain st1 where i: "ensureInitialized example_data new_generator = Inr st1"
    using example_init by blast
  have "validateIdCardOptions \<lparr>areaCode = Some [], birthday = None, gender = Some 2\<rparr>
      = Inl GenderError"
    by (simp add: validateIdCardOptions_def truthy_def)
  then show ?thesis
    using generateIdCard_invalid [OF i] by simp
qed

text \<open>
  Claim C10, amended. When \<^verbatim>\<open>areaCode\<close> is absent or the empty string, \<open>generateIdCard\<close>
  never raises the area-code error. It raises the birth-date error when the birth date is
  a non-empty string that is not eight digits, and otherwise the gender error when the
  gender is given and is neither 0 nor 1. In every other case the value is replaced by
  the eligible code of the reference data (the codes of the district entries that do not
  end in 00, in the order of the data) at the index drawn,
  \<^verbatim>\<open>Math.floor(Math.random() * codes.length)\<close>; when the eligible codes have six
  characters, this code is the first six characters of the result.
\<close>

theorem falsy_area_code_replaced:
  assumes "ensureInitialized ds st = Inr st1"
    and "areaCode opts = None \<or> areaCode opts = Some []"
    and "randomAreaCodes st = None \<or> randomAreaCodes st = Some (eligibleAreaCodes ds)"
    and "eligibleAreaCodes ds \<noteq> []"
    and "\<forall>c\<in>set (eligibleAreaCodes ds). length c = 6"
    and "unit_double (r_area rnd)"
  shows "generateIdCard ds st opts rnd \<noteq> Inl AreaCodeError
     \<and> (truthy (birthday opts) \<and> \<not> regex_d8 (String_opt (birthday opts)) \<longrightarrow>
          generateIdCard ds st opts rnd = Inl BirthdayError)
     \<and> (\<not> (truthy (birthday opts) \<and> \<not> regex_d8 (String_opt (birthday opts)))
          \<and> gender opts \<noteq> None \<and> gender opts \<noteq> Some 0 \<and> gender opts \<noteq> Some 1 \<longrightarrow>
          generateIdCard ds st opts rnd = Inl GenderError)
     \<and> (\<not> (truthy (birthday opts) \<and> \<not> regex_d8 (String_opt (birthday opts)))
          \<and> (gender opts = None \<or> gender opts = Some 0 \<or> gender opts = Some 1) \<longrightarrow>
          (\<exists>s st'. generateIdCard ds st opts rnd = Inr (s, st')
             \<and> nat (random_floor (r_area rnd) (int (length (eligibleAreaCodes ds))))
                 < length (eligibleAreaCodes ds)
             \<and> substring s 0 6
                 = eligibleAreaCodes ds
                   ! nat (random_floor (r_area rnd) (int (length (eligibleAreaCodes ds))))
             \<and> (\<exists>a\<in>set (area_data ds). code a = substring s 0 6
                    \<and> \<not> endsWith (code a) (js ''00''))))"
proof -
  have f: "\<not> truthy (areaCode opts)" using assms(2) by (auto simp: truthy_def)
  let ?badb = "truthy (birthday opts) \<and> \<not> regex_d8 (String_opt (birthday opts))"
  let ?okg = "gender opts = None \<or> gender opts = Some 0 \<or> gender opts = Some 1"
  have v1: "?badb \<Longrightarrow> validateIdCardOptions opts = Inl BirthdayError"
    using f by (simp add: validateIdCardOptions_def)
  have v2: "\<not> ?badb \<Longrightarrow> \<not> ?okg \<Longrightarrow> validateIdCardOptions opts = Inl GenderError"
    using f by (auto simp: validateIdCardOptions_def)
  have v3: "\<not> ?badb \<Longrightarrow> ?okg \<Longrightarrow> validateIdCardOptions opts = Inr ()"
    using f by (auto simp: validateIdCardOptions_def)
  have 1: "generateIdCard ds st opts rnd \<noteq> Inl AreaCodeError"
  proof
    assume "generateIdCard ds st opts rnd = Inl AreaCodeError"
    then have "validateIdCardOptions opts = Inl AreaCodeError"
      using generateIdCard_error [OF assms(1)] by simp
    then show False using validate_falsy_area [OF f] by simp
  qed
  have 2: "generateIdCard ds st opts rnd = Inl BirthdayError" if "?badb"
    using generateIdCard_invalid [OF assms(1) v1 [OF that]] .
  have 3: "generateIdCard ds st opts rnd = Inl GenderError" if "\<not> ?badb" "\<not> ?okg"
    using generateIdCard_invalid [OF assms(1) v2 [OF that]] .
  have 4: "\<exists>s st'. generateIdCard ds st opts rnd = Inr (s, st')
             \<and> nat (random_floor (r_area rnd) (int (length (eligibleAreaCodes ds))))
                 < length (eligibleAreaCodes ds)
             \<and> substring s 0 6
                 = eligibleAreaCodes ds
                   ! nat (random_floor (r_area rnd) (int (length (eligibleAreaCodes ds))))
             \<and> (\<exists>a\<in>set (area_data ds). code a = substring s 0 6
                    \<and> \<not> endsWith (code a) (js ''00''))"
    if h: "\<not> ?badb" "?okg"
  proof -
    have d: "\<not> truthy (areaCode opts) \<Longrightarrow>
        (randomAreaCodes st = None \<or> randomAreaCodes st = Some (eligibleAreaCodes ds))
        \<and> eligibleAreaCodes ds \<noteq> [] \<and> unit_double (r_area rnd)"
      using assms by simp
    obtain ac tl st' where g: "generateIdCard ds st opts rnd = Inr (ac @ tl, st')"
      and ac: "ac \<in> set (eligibleAreaCodes ds)"
        "ac = eligibleAreaCodes ds
               ! nat (random_floor (r_area rnd) (int (length (eligibleAreaCodes ds))))"
      using generateIdCard_unfold [OF assms(1) v3 [OF h] d] f by blast
    have "0 < int (length (eligibleAreaCodes ds))" using assms(4) by simp
    then have k: "nat (random_floor (r_area rnd) (int (length (eligibleAreaCodes ds))))
        < length (eligibleAreaCodes ds)"
      using random_floor_bounds [OF assms(6)] by (simp add: nat_less_iff)
    have "length ac = 6" using ac(1) assms(5) by simp
    then have s: "substring (ac @ tl) 0 6 = ac" by (simp add: substring_def)
    obtain a where a: "a \<in> set (area_data ds)" "code a = ac" "\<not> endsWith (code a) (js ''00'')"
      using eligible_in_data [OF ac(1)] by blast
    have e1: "substring (ac @ tl) 0 6
        = eligibleAreaCodes ds
          ! nat (random_floor (r_area rnd) (int (length (eligibleAreaCodes ds))))"
      using s ac(2) by simp
    have e2: "\<exists>a\<in>set (area_data ds). code a = substring (ac @ tl) 0 6
        \<and> \<not> endsWith (code a) (js ''00'')"
      using a s by auto
    show ?thesis
      using g k e1 e2 by blast
  qed
  show ?thesis
  proof (intro conjI impI)
    show "generateIdCard ds st opts rnd \<noteq> Inl AreaCodeError" by (rule 1)
  next
    assume "?badb"
    then show "generateIdCard ds st opts rnd = Inl BirthdayError" by (rule 2)
  next
    assume "\<not> ?badb \<and> gender opts \<noteq> None \<and> gender opts \<noteq> Some 0 \<and> gender opts \<noteq> Some 1"
    then have "\<not> ?badb" "\<not> ?okg" by simp_all
    then show "generateIdCard ds st opts rnd = Inl GenderError" by (rule 3)
  next
    assume "\<not> ?badb \<and> ?okg"
    then have "\<not> ?badb" "?okg" by simp_all
    then show "\<exists>s st'. generateIdCard ds st opts rnd = Inr (s, st')
             \<and> nat (random_floor (r_area rnd) (int (length (eligibleAreaCodes ds))))
                 < length (eligibleAreaCodes ds)
             \<and> substring s 0 6
                 = eligibleAreaCodes ds
                   ! nat (random_floor (r_area rnd) (int (length (eligibleAreaCodes ds))))
             \<and> (\<exists>a\<in>set (area_data ds). code a = substring s 0 6
                    \<and> \<not> endsWith (code a) (js ''00''))"
      by (rule 4)
  qed
qed

theorem falsy_area_code_replaced_witness:
  "eligibleAreaCodes example_data = [js ''110101'', js ''420101'', js ''420102'']
   \<and> random_floor (r_area example_draws) 3 = 1
   \<and> (\<exists>s st'. generateIdCard example_data new_generator
                  \<lparr>areaCode = Some [], birthday = None, gender = None\<rparr> example_draws
                = Inr (s, st')
             \<and> substring s 0 6 = js ''420101'')
   \<and> generateIdCard example_data new_generator
        \<lparr>areaCode = Some [], birthday = Some (js ''1990''), gender = None\<rparr> example_draws
      = Inl BirthdayError"
proof -
  let ?opts = "\<lparr>areaCode = Some [], birthday = None, gender = None\<rparr>"
  let ?bad = "\<lparr>areaCode = Some [], birthday = Some (js ''1990''), gender = None\<rparr>"
  obtain st1 where i: "ensureInitialized example_data new_generator = Inr st1"
    using example_init by blast
  have a: "areaCode ?opts = None \<or> areaCode ?opts = Some []"
    "areaCode ?bad = None \<or> areaCode ?bad = Some []" by simp_all
  have c: "randomAreaCodes new_generator = None
      \<or> randomAreaCodes new_generator = Some (eligibleAreaCodes example_data)"
    by (simp add: new_generator_def)
  have e: "eligibleAreaCodes example_data \<noteq> []" by (simp add: example_eligible)
  have l: "\<forall>c\<in>set (eligibleAreaCodes example_data). length c = 6"
    by (simp add: example_eligible js_def)
  have r: "unit_double (r_area example_draws)"
    by (simp add: example_draws_def one_half_def unit_double_def)
  have k: "random_floor (r_area example_draws) 3 = 1"
    by (simp add: example_draws_def random_floor_one_half)
  have b: "truthy (birthday ?opts) = False" "gender ?opts = None"
    "truthy (birthday ?bad) \<and> \<not> regex_d8 (String_opt (birthday ?bad))"
    by (simp_all add: truthy_def regex_d8_def String_opt_def js_def)
  note t = falsy_area_code_replaced [OF i a(1) c e l r]
  note u = falsy_area_code_replaced [OF i a(2) c e l r]
  have 1: "\<exists>s st'. generateIdCard example_data new_generator ?opts example_draws = Inr (s, st')
             \<and> substring s 0 6 = js ''420101''"
    using t [THEN conjunct2, THEN conjunct2, THEN conjunct2] b(1,2)
    by (auto simp: example_eligible k)
  have 2: "generateIdCard example_data new_generator ?bad example_draws = Inl BirthdayError"
    using u [THEN conjunct2, THEN conjunct1] b(3) by simp
  show ?thesis using 1 2 k example_eligible by simp
qed

section \<open>Validation errors\<close>

text \<open>
  Claim C7 says that \<open>generateIdCard\<close> raises an error whenever a supplied area code is
  not exactly 6 digits. It does not for the empty string: the check is guarded by the
  truthiness of the option, and the empty string is then replaced by a random code.
\<close>

theorem empty_area_code_counterexample:
  "areaCode \<lparr>areaCode = Some [], birthday = None, gender = None\<rparr> = Some []
   \<and> \<not> regex_d6 []
   \<and> map_sum id fst (generateIdCard example_data new_generator
                        \<lparr>areaCode = Some [], birthday = None, gender = None\<rparr> example_draws)
       = Inr (js ''42010119780716501X'')"
proof -
  let ?opts = "\<lparr>areaCode = Some [], birthday = None, gender = None\<rparr>"
  obtain st1 where i: "ensureInitialized example_data new_generator = Inr st1"
    using example_init by blast
  have v: "validateIdCardOptions ?opts = Inr ()"
    by (simp add: validateIdCardOptions_def truthy_def)
  have d: "\<not> truthy (areaCode ?opts) \<Longrightarrow>
        (randomAreaCodes new_generator = None
         \<or> randomAreaCodes new_generator = Some (eligibleAreaCodes example_data))
        \<and> eligibleAreaCodes example_data \<noteq> []
        \<and> unit_double (r_area example_draws)"
    by (simp add: new_generator_def example_eligible example_draws_def one_half_def
        unit_double_def)
  have ac: "eligibleAreaCodes example_data
      ! nat (random_floor (r_area example_draws) (int (length (eligibleAreaCodes example_data))))
      = js ''420101''"
    by (simp add: example_eligible example_draws_def random_floor_one_half)
  have r: "r_year example_draws = one_half" "r_month example_draws = one_half"
    "r_day example_draws = one_half" "r_seq example_draws = one_half"
    "random_round (r_gender example_draws) = 1"
    by (simp_all add: example_draws_def random_round_def one_half_def)
  have c: "js ''420101'' @ js ''19780716'' @ js ''501'' = js ''42010119780716501''"
    "js ''420101'' @ js ''19780716'' @ js ''501'' @ js ''X'' = js ''42010119780716501X''"
    by (simp_all add: js_def)
  obtain st' where "generateIdCard example_data new_generator ?opts example_draws
      = Inr (js ''42010119780716501X'', st')"
    using generateIdCard_unfold [OF i v d]
    by (auto simp: truthy_def ac r example_birthday example_sequence
        c example_check String_opt_def)
  then show ?thesis by (simp add: regex_d6_def)
qed


text \<open>
  Claim C7, amended. Once the instance is initialised, \<open>generateIdCard\<close> raises the
  area-code error whenever the supplied area code is a non-empty string that is not
  exactly 6 digits; it raises an error (that of the first offending option, in the order
  area code, birth date, gender) whenever the supplied birth date is a non-empty string
  that is not exactly 8 digits or the supplied gender is neither 0 nor 1; and each of the
  three errors is raised only when its own option offends in this way. An empty string
  for the area code or the birth date is treated as absent.
  \<open>generatePersonInfoByAreaAndAge\<close> raises an error whenever the age is below 0 or
  above 120: the age error, or the area-name error when the area name is empty.
\<close>

theorem validation_errors:
  assumes "ensureInitialized ds st = Inr st1"
  shows "(\<forall>a. areaCode opts = Some a \<and> a \<noteq> [] \<and> \<not> regex_d6 a \<longrightarrow>
            generateIdCard ds st opts rnd = Inl AreaCodeError)
     \<and> (\<forall>b. birthday opts = Some b \<and> b \<noteq> [] \<and> \<not> regex_d8 b \<longrightarrow>
            generateIdCard ds st opts rnd = Inl AreaCodeError
            \<or> generateIdCard ds st opts rnd = Inl BirthdayError)
     \<and> (\<forall>g. gender opts = Some g \<and> g \<noteq> 0 \<and> g \<noteq> 1 \<longrightarrow>
            generateIdCard ds st opts rnd = Inl AreaCodeError
            \<or> generateIdCard ds st opts rnd = Inl BirthdayError
            \<or> generateIdCard ds st opts rnd = Inl GenderError)
     \<and> (generateIdCard ds st opts rnd = Inl AreaCodeError \<longrightarrow>
            (\<exists>a. areaCode opts = Some a \<and> a \<noteq> [] \<and> \<not> regex_d6 a))
     \<and> (generateIdCard ds st opts rnd = Inl BirthdayError \<longrightarrow>
            (\<exists>b. birthday opts = Some b \<and> b \<noteq> [] \<and> \<not> regex_d8 b))
     \<and> (generateIdCard ds st opts rnd = Inl GenderError \<longrightarrow>
            (\<exists>g. gender opts = Some g \<and> g \<noteq> 0 \<and> g \<noteq> 1))
     \<and> (\<forall>v. v < 0 \<or> 120 < v \<longrightarrow>
            generatePersonInfoByAreaAndAge ds st today areaName (Some v) opts rnd
              = (if areaName = [] then Inl AreaNameError else Inl AgeError))"
proof -
  have 1: "generateIdCard ds st opts rnd = Inl AreaCodeError"
    if "areaCode opts = Some a \<and> a \<noteq> [] \<and> \<not> regex_d6 a" for a
    using that generateIdCard_invalid [OF assms, of opts AreaCodeError rnd]
    by (simp add: validateIdCardOptions_def truthy_def String_opt_def)
  have 2: "generateIdCard ds st opts rnd = Inl AreaCodeError
            \<or> generateIdCard ds st opts rnd = Inl BirthdayError"
    if "birthday opts = Some b \<and> b \<noteq> [] \<and> \<not> regex_d8 b" for b
  proof -
    have "validateIdCardOptions opts = Inl AreaCodeError
        \<or> validateIdCardOptions opts = Inl BirthdayError"
      using that by (simp add: validateIdCardOptions_def truthy_def String_opt_def)
    then show ?thesis using generateIdCard_invalid [OF assms] by auto
  qed
  have 3: "generateIdCard ds st opts rnd = Inl AreaCodeError
            \<or> generateIdCard ds st opts rnd = Inl BirthdayError
            \<or> generateIdCard ds st opts rnd = Inl GenderError"
    if "gender opts = Some g \<and> g \<noteq> 0 \<and> g \<noteq> 1" for g
  proof -
    have "validateIdCardOptions opts = Inl AreaCodeError
        \<or> validateIdCardOptions opts = Inl BirthdayError
        \<or> validateIdCardOptions opts = Inl GenderError"
      using that by (auto simp: validateIdCardOptions_def)
    then show ?thesis using generateIdCard_invalid [OF assms] by auto
  qed
  have 4: "\<exists>a. areaCode opts = Some a \<and> a \<noteq> [] \<and> \<not> regex_d6 a"
    if "generateIdCard ds st opts rnd = Inl AreaCodeError"
    using generateIdCard_error [OF assms that]
    by (auto simp: validateIdCardOptions_def truthy_def String_opt_def
        split: if_splits option.splits)
  have 5: "\<exists>b. birthday opts = Some b \<and> b \<noteq> [] \<and> \<not> regex_d8 b"
    if "generateIdCard ds st opts rnd = Inl BirthdayError"
    using generateIdCard_error [OF assms that]
    by (auto simp: validateIdCardOptions_def truthy_def String_opt_def
        split: if_splits option.splits)
  have 6: "\<exists>g. gender opts = Some g \<and> g \<noteq> 0 \<and> g \<noteq> 1"
    if "generateIdCard ds st opts rnd = Inl GenderError"
    using generateIdCard_error [OF assms that]
    by (auto simp: validateIdCardOptions_def split: if_splits)
  have 7: "generatePersonInfoByAreaAndAge ds st today areaName (Some v) opts rnd
              = (if areaName = [] then Inl AreaNameError else Inl AgeError)"
    if "v < 0 \<or> 120 < v" for v
    using that by (auto simp: generatePersonInfoByAreaAndAge_def assms js_less_def)
  show ?thesis using 1 2 3 4 5 6 7 by blast
qed


theorem validation_errors_witness:
  "generateIdCard example_data new_generator
      \<lparr>areaCode = Some (js ''1234''), birthday = None, gender = None\<rparr> example_draws
     = Inl AreaCodeError
   \<and> generateIdCard example_data new_generator
      \<lparr>areaCode = None, birthday = Some (js ''202X0101''), gender = None\<rparr> example_draws
     = Inl BirthdayError
   \<and> generateIdCard example_data new_generator
      \<lparr>areaCode = None, birthday = None, gender = Some 2\<rparr> example_draws
     = Inl GenderError
   \<and> generatePersonInfoByAreaAndAge example_data new_generator example_today
        [0x5317, 0x4EAC] (Some 121) \<lparr>areaCode = None, birthday = None, gender = None\<rparr>
        example_draws
     = Inl AgeError"
proof -
  obtain st1 where i: "ensureInitialized example_data new_generator = Inr st1"
    using example_init by blast
  have a: "js ''1234'' \<noteq> [] \<and> \<not> regex_d6 (js ''1234'')"
    by (simp add: js_def regex_d6_def)
  have b: "js ''202X0101'' \<noteq> [] \<and> \<not> regex_d8 (js ''202X0101'')"
    by (simp add: js_def regex_d8_def isDigit_def)
  have 1: "generateIdCard example_data new_generator
      \<lparr>areaCode = Some (js ''1234''), birthday = None, gender = None\<rparr> example_draws
     = Inl AreaCodeError"
    using validation_errors [OF i,
        of "\<lparr>areaCode = Some (js ''1234''), birthday = None, gender = None\<rparr>" example_draws]
      a by simp
  have 2: "generateIdCard example_data new_generator
      \<lparr>areaCode = None, birthday = Some (js ''202X0101''), gender = None\<rparr> example_draws
     = Inl BirthdayError"
    using validation_errors [OF i,
        of "\<lparr>areaCode = None, birthday = Some (js ''202X0101''), gender = None\<rparr>" example_draws]
      b by auto
  have 3: "generateIdCard example_data new_generator
      \<lparr>areaCode = None, birthday = None, gender = Some 2\<rparr> example_draws
     = Inl GenderError"
    using validation_errors [OF i,
        of "\<lparr>areaCode = None, birthday = None, gender = Some 2\<rparr>" example_draws]
    by auto
  have 4: "generatePersonInfoByAreaAndAge example_data new_generator example_today
        [0x5317, 0x4EAC] (Some 121) \<lparr>areaCode = None, birthday = None, gender = None\<rparr>
        example_draws
     = Inl AgeError"
    using validation_errors [OF i, of _ _ example_today "[0x5317, 0x4EAC]"]
    by simp
  show ?thesis using 1 2 3 4 by simp
qed

section \<open>Resolving a municipal code to a district\<close>




section \<open>Resolving a region name\<close>

text \<open>
  Claim C5 says that the last tier of \<open>getAreaCodeByName\<close> looks the inclusion index up
  at each character of the name. The source looks it up once, at the whole name, while
  the index has one key for each single character. For the index built from
  \<open>example_data\<close> and the two-character name U+6C49 U+53E3, which has no exact entry,
  no alias and no prefix bucket, the result is \<^verbatim>\<open>null\<close>, although the index holds three
  codes at the first character, U+6C49.
\<close>

theorem inclusion_tier_whole_name:
  "(case getAreaCodeByName example_data new_generator [0x6C49, 0x53E3] of
      Inl e \<Rightarrow> False
    | Inr (found, st') \<Rightarrow>
        found = Null
        \<and> (case fuzzyAreaNameMap st' of
             None \<Rightarrow> False
           | Some fz \<Rightarrow>
               include_index fz [0x6C49] = Some [js ''420100'', js ''420101'', js ''420102'']))"
proof -
  obtain st1 where i: "ensureInitialized example_data new_generator = Inr st1"
    and n: "areaCodeByName st1 = example_names" and f: "fuzzyAreaNameMap st1 = None"
    using example_index by blast
  have e: "map_of example_names [0x6C49, 0x53E3] = None"
    by (simp add: example_names_def)
  have c: "map_of commonCities [0x6C49, 0x53E3] = None"
    by (simp add: commonCities_def)
  have p: "[0x6C49, 0x53E3] \<notin> set object_prototype_keys"
    by (simp add: object_prototype_keys_def js_def)
  show ?thesis
    unfolding getAreaCodeByName_def i
    by (simp add: n e c p f buildFuzzyAreaNameCache_def example_fuzzy)
qed

section \<open>The write policy of the region index\<close>

text \<open>
  Claim C6 says that both mappings of the index keep the first value written for a key.
  \<open>addAreaCodeMapping\<close> guards only the name-to-code map; it sets the code-to-name map
  on every call. With \<open>example_data\<close> the code 420100 is inserted first under the full
  name of the city (the third insertion) and then under its bare name (the fourth), and
  the code-to-name map ends with the bare name.
\<close>

theorem code_to_name_counterexample:
  "(case ensureInitialized example_data new_generator of
      Inl e \<Rightarrow> False
    | Inr st1 \<Rightarrow>
        index_insertions example_data ! 2
          = ([0x6E56, 0x5317, 0x7701, 0x6B66, 0x6C49, 0x5E02], js ''420100'')
        \<and> index_insertions example_data ! 3 = ([0x6B66, 0x6C49, 0x5E02], js ''420100'')
        \<and> map_of (areaCodeByName st1) [0x6E56, 0x5317, 0x7701, 0x6B66, 0x6C49, 0x5E02]
            = Some (js ''420100'')
        \<and> nameByAreaCode st1 (js ''420100'') = Some [0x6B66, 0x6C49, 0x5E02])"
proof -
  obtain st1 where i: "ensureInitialized example_data new_generator = Inr st1"
    and n: "areaCodeByName st1 = example_names"
    and c: "nameByAreaCode st1 (js ''420100'') = Some [0x6B66, 0x6C49, 0x5E02]"
    using example_index by blast
  have s: "index_insertions example_data ! 2
          = ([0x6E56, 0x5317, 0x7701, 0x6B66, 0x6C49, 0x5E02], js ''420100'')"
    "index_insertions example_data ! 3 = ([0x6B66, 0x6C49, 0x5E02], js ''420100'')"
    by (simp_all add: index_insertions_def provinceNameOf_def cityNameOf_def example_data_def
        js_def)
  have m: "map_of example_names [0x6E56, 0x5317, 0x7701, 0x6B66, 0x6C49, 0x5E02]
      = Some (js ''420100'')"
    by (simp add: example_names_def)
  show ?thesis by (simp add: i n c s m)
qed

text \<open>
  Claim C6, amended. When the index of a new instance is built by the traversal, a name
  maps to the code of the first insertion under that name (first write wins), a code maps
  to the name of the last insertion with that code (last write wins), and every name has
  exactly one entry. As each city and district is inserted under its full name and then
  under its bare name, the code of a district maps to the bare name of a district with
  that code, not to a full name.
\<close>

theorem index_write_policy:
  assumes "ensureInitialized ds new_generator = Inr st1"
  shows "(\<forall>n c. map_of (areaCodeByName st1) n = Some c \<longleftrightarrow>
            (\<exists>k<length (index_insertions ds). index_insertions ds ! k = (n, c)
               \<and> (\<forall>j<k. fst (index_insertions ds ! j) \<noteq> n)))
     \<and> (\<forall>c n. nameByAreaCode st1 c = Some n \<longleftrightarrow>
            (\<exists>k<length (index_insertions ds). index_insertions ds ! k = (n, c)
               \<and> (\<forall>j<length (index_insertions ds). k < j \<longrightarrow> snd (index_insertions ds ! j) \<noteq> c)))
     \<and> distinct (map fst (areaCodeByName st1))
     \<and> (\<forall>a\<in>set (area_data ds). \<exists>b\<in>set (area_data ds).
            code b = code a \<and> nameByAreaCode st1 (code a) = Some (name b))"
proof -
  let ?ins = "index_insertions ds"
  have ix: "index_of st1 = fold index_add ?ins ([], Map.empty)"
    using assms by (rule init_index)
  have f1: "areaCodeByName st1 = fst (fold index_add ?ins ([], Map.empty))"
    using arg_cong [OF ix, of fst] by (simp add: index_of_def)
  have f2: "nameByAreaCode st1 = snd (fold index_add ?ins ([], Map.empty))"
    using arg_cong [OF ix, of snd] by (simp add: index_of_def)
  have names: "map_of (areaCodeByName st1) = map_of ?ins"
    unfolding f1 using fold_index_add_names [of ?ins "([], Map.empty)"] by simp
  have codes: "nameByAreaCode st1 = map_of (rev (map (\<lambda>(n, c). (c, n)) ?ins))"
    unfolding f2 using fold_index_add_codes [of ?ins "([], Map.empty)"] by simp
  have d: "distinct (map fst (areaCodeByName st1))"
    unfolding f1 using fold_index_add_distinct [of "([], Map.empty)" ?ins] by simp
  have bare: "\<exists>b\<in>set (area_data ds). code b = code a \<and> nameByAreaCode st1 (code a) = Some (name b)"
    if A: "a \<in> set (area_data ds)" for a
  proof -
    obtain b where b: "b \<in> set (area_data ds)" "code b = code a"
      "map_of (rev (map (\<lambda>a. (code a, name a)) (area_data ds))) (code a) = Some (name b)"
      using map_of_rev_in [OF A] by blast
    have "nameByAreaCode st1 (code a) = Some (name b)"
      unfolding codes index_insertions_def
      by (simp add: district_blocks b(3) map_add_def)
    then show ?thesis using b by blast
  qed
  have first: "map_of (areaCodeByName st1) n = Some c \<longleftrightarrow>
            (\<exists>k<length ?ins. ?ins ! k = (n, c) \<and> (\<forall>j<k. fst (?ins ! j) \<noteq> n))" for n c
    unfolding names by (rule map_of_first)
  have last: "nameByAreaCode st1 c = Some n \<longleftrightarrow>
            (\<exists>k<length ?ins. ?ins ! k = (n, c)
               \<and> (\<forall>j<length ?ins. k < j \<longrightarrow> snd (?ins ! j) \<noteq> c))" for c n
    unfolding codes by (rule map_of_last)
  show ?thesis
    using first last d bare by blast
qed

theorem index_write_policy_witness:
  "\<exists>st1. ensureInitialized example_data new_generator = Inr st1
      \<and> distinct (map fst (areaCodeByName st1))
      \<and> nameByAreaCode st1 (js ''420102'') = Some [0x6C5F, 0x5CB8, 0x533A]"
proof -
  obtain st1 where i: "ensureInitialized example_data new_generator = Inr st1"
    using example_init by blast
  have a: "\<lparr>code = js ''420102'', name = [0x6C5F, 0x5CB8, 0x533A], province = js ''42'',
          city = js ''01'', area = js ''02''\<rparr> \<in> set (area_data example_data)"
    by (simp add: example_data_def)
  have u: "\<forall>b\<in>set (area_data example_data). code b = js ''420102''
      \<longrightarrow> name b = [0x6C5F, 0x5CB8, 0x533A]"
    by (simp add: example_data_def js_def)
  note t = index_write_policy [OF i]
  have d: "distinct (map fst (areaCodeByName st1))"
    using t [THEN conjunct2, THEN conjunct2, THEN conjunct1] .
  obtain b where b: "b \<in> set (area_data example_data)" "code b = js ''420102''"
    "nameByAreaCode st1 (js ''420102'') = Some (name b)"
    using bspec [OF t [THEN conjunct2, THEN conjunct2, THEN conjunct2] a] by auto
  have "name b = [0x6C5F, 0x5CB8, 0x533A]" using u b(1,2) by blast
  then show ?thesis using i d b(3) by auto
qed

end
